theory Spec2Isabelle
  imports Main "HOL-Library.Word"
begin

unbundle bit_operations_syntax

section \<open>HID report descriptor parser\<close>

type_synonym u8 = "8 word"
type_synonym u16 = "16 word"
type_synonym u32 = "32 word"

text \<open>Modelled from the spec: the descriptor buffer of \<^verbatim>\<open>struct hidraw_report_descriptor\<close>
  holds \<^verbatim>\<open>HID_MAX_DESCRIPTOR_SIZE\<close> bytes, a constant of the kernel headers; "a byte array
  of length \<le> 4096 (max descriptor size)", the value the comment in
  \<^verbatim>\<open>get_hid_report_descriptor\<close> gives as well.\<close>

definition HID_MAX_DESCRIPTOR_SIZE :: nat where
  "HID_MAX_DESCRIPTOR_SIZE = 4096"

text \<open>Addition on \<^verbatim>\<open>unsigned int\<close>: the cursor \<^verbatim>\<open>pos\<close> is a natural number below
  \<open>2 ^ 32\<close> and every sum wraps.\<close>

definition uint_add :: "nat \<Rightarrow> nat \<Rightarrow> nat" where
  "uint_add a b = (a + b) mod 2 ^ 32"

text \<open>\<^verbatim>\<open>get_hid_item_size\<close> returns the triple (return value, \<^verbatim>\<open>*data_len\<close>, \<^verbatim>\<open>*key_size\<close>).
  In the long-item branch the source returns only when \<^verbatim>\<open>pos + 1 < size\<close>; otherwise it
  stores zeros and falls through to the short-item code, which overwrites them.\<close>

definition get_hid_item_size :: "u8 list \<Rightarrow> nat \<Rightarrow> nat \<Rightarrow> int \<times> int \<times> int" where
  "get_hid_item_size report_descriptor pos sz =
    (let key = uint (report_descriptor ! pos) in
     if key AND 0xf0 = 0xf0 \<and> uint_add pos 1 < sz
     then (1, uint (report_descriptor ! uint_add pos 1), 3)
     else
       let size_code = key AND 0x3 in
       if size_code = 0 \<or> size_code = 1 \<or> size_code = 2 then (1, size_code, 1)
       else if size_code = 3 then (1, 4, 1)
       else (0, 0, 0))"

text \<open>\<^verbatim>\<open>get_hid_report_bytes\<close>: the arguments are \<^verbatim>\<open>size_t\<close> (no sum below can wrap:
  \<^verbatim>\<open>cur\<close> is an \<^verbatim>\<open>unsigned int\<close> and \<^verbatim>\<open>num_bytes\<close> is at most 255); the byte products
  are computed in \<^verbatim>\<open>int\<close> and converted to \<^verbatim>\<open>__u32\<close> on return.\<close>

definition get_hid_report_bytes :: "u8 list \<Rightarrow> nat \<Rightarrow> nat \<Rightarrow> nat \<Rightarrow> u32" where
  "get_hid_report_bytes rpt len num_bytes cur =
    (if cur + num_bytes \<ge> len then 0
     else if num_bytes = 0 then 0
     else if num_bytes = 1 then word_of_int (uint (rpt ! (cur + 1)))
     else if num_bytes = 2 then
       word_of_int (uint (rpt ! (cur + 2)) * 256 + uint (rpt ! (cur + 1)))
     else if num_bytes = 4 then
       word_of_int (uint (rpt ! (cur + 4)) * 0x01000000 +
                    uint (rpt ! (cur + 3)) * 0x00010000 +
                    uint (rpt ! (cur + 2)) * 0x00000100 +
                    uint (rpt ! (cur + 1)) * 0x00000001)
     else 0)"

text \<open>The \<^verbatim>\<open>while (*pos < size)\<close> loop of \<^verbatim>\<open>get_next_hid_usage\<close> together with the two
  returns after it.  The result is (return value, \<^verbatim>\<open>*pos\<close>, \<^verbatim>\<open>*usage_page\<close>, \<^verbatim>\<open>*usage\<close>);
  the assignment to an \<^verbatim>\<open>unsigned short\<close> truncates to 16 bits.
  \<^verbatim>\<open>usage_pair_ready\<close> is set only in the iteration that returns, so it is local to
  one iteration here.  The cursor wraps at \<open>2 ^ 32\<close>, hence the loop is a partial
  function: \<open>None\<close> stands for a call that never returns.\<close>

partial_function (option) get_next_hid_usage_loop ::
  "u8 list \<Rightarrow> nat \<Rightarrow> bool \<Rightarrow> bool \<Rightarrow> nat \<Rightarrow> u16 \<Rightarrow> u16 \<Rightarrow> (int \<times> nat \<times> u16 \<times> u16) option"
where
  "get_next_hid_usage_loop report_descriptor sz initial usage_found pos usage_page usage =
    (if pos < sz then
       (let key = uint (report_descriptor ! pos);
            key_cmd = key AND 0xfc;
            (ok, data_len, key_size) = get_hid_item_size report_descriptor pos sz
        in
          if ok = 0 then Some (- 1, pos, usage_page, usage)
          else
            let usage_page' =
                  (if key_cmd = 0x4
                   then ucast (get_hid_report_bytes report_descriptor sz (nat data_len) pos)
                   else usage_page);
                usage' =
                  (if key_cmd = 0x8
                   then ucast (get_hid_report_bytes report_descriptor sz (nat data_len) pos)
                   else usage);
                usage_pair_ready = (key_cmd = 0xa0 \<and> usage_found);
                usage_found' =
                  (if key_cmd = 0x8 then True
                   else if key_cmd = 0xa0 \<or> key_cmd = 0x80 \<or> key_cmd = 0x90
                           \<or> key_cmd = 0xb0 \<or> key_cmd = 0xc0 then False
                   else usage_found);
                pos' = uint_add pos (nat (data_len + key_size))
            in
              if usage_pair_ready then Some (0, pos', usage_page', usage')
              else get_next_hid_usage_loop report_descriptor sz initial usage_found'
                     pos' usage_page' usage')
     else if initial \<and> usage_found then Some (0, pos, usage_page, usage)
     else Some (1, pos, usage_page, usage))"

declare get_next_hid_usage_loop.simps [code]

definition get_next_hid_usage ::
  "u8 list \<Rightarrow> nat \<Rightarrow> nat \<Rightarrow> u16 \<Rightarrow> u16 \<Rightarrow> (int \<times> nat \<times> u16 \<times> u16) option" where
  "get_next_hid_usage report_descriptor sz pos usage_page usage =
     get_next_hid_usage_loop report_descriptor sz (pos = 0) False pos usage_page usage"

text \<open>The calling protocol of the function's comment ("can be called repeatedly until it
  returns non-0"): the pairs delivered by successive calls that return 0, in order.\<close>

partial_function (option) hid_usage_pairs ::
  "u8 list \<Rightarrow> nat \<Rightarrow> nat \<Rightarrow> u16 \<Rightarrow> u16 \<Rightarrow> (u16 \<times> u16) list option"
where
  "hid_usage_pairs report_descriptor sz pos usage_page usage =
    (case get_next_hid_usage report_descriptor sz pos usage_page usage of
       None \<Rightarrow> None
     | Some (ret, pos', usage_page', usage') \<Rightarrow>
         if ret = 0
         then Option.bind (hid_usage_pairs report_descriptor sz pos' usage_page' usage')
                (\<lambda>rest. Some ((usage_page', usage') # rest))
         else Some [])"

declare hid_usage_pairs.simps [code]

text \<open>The items a call walks when it runs from \<^verbatim>\<open>pos\<close> to the end of the descriptor,
  each item skipped by \<^verbatim>\<open>data_len + key_size\<close>: for every item its \<^verbatim>\<open>key_cmd\<close> and the
  value \<^verbatim>\<open>get_hid_report_bytes\<close> reads for it (the value the loop stores when the item
  is a Usage Page or a Usage).\<close>

definition item_advance :: "u8 list \<Rightarrow> nat \<Rightarrow> nat \<Rightarrow> nat" where
  "item_advance report_descriptor sz pos =
     (case get_hid_item_size report_descriptor pos sz of
        (ok, data_len, key_size) \<Rightarrow> nat (data_len + key_size))"

definition item_data :: "u8 list \<Rightarrow> nat \<Rightarrow> nat \<Rightarrow> u32" where
  "item_data report_descriptor sz pos =
     (case get_hid_item_size report_descriptor pos sz of
        (ok, data_len, key_size) \<Rightarrow>
          get_hid_report_bytes report_descriptor sz (nat data_len) pos)"

partial_function (option) hid_items :: "u8 list \<Rightarrow> nat \<Rightarrow> nat \<Rightarrow> (int \<times> u32) list option"
where
  "hid_items report_descriptor sz pos =
    (if pos < sz
     then Option.bind
            (hid_items report_descriptor sz
               (uint_add pos (item_advance report_descriptor sz pos)))
            (\<lambda>rest. Some ((uint (report_descriptor ! pos) AND 0xfc,
                            item_data report_descriptor sz pos) # rest))
     else Some [])"

declare hid_items.simps [code]



text \<open>The state of the flag \<^verbatim>\<open>usage_found\<close> after a sequence of items: a Usage item (0x08)
  sets it, a Main item (Collection 0xa0, Input 0x80, Output 0x90, Feature 0xb0,
  End Collection 0xc0) clears it, any other item leaves it.\<close>

definition usage_flag_step :: "bool \<Rightarrow> int \<Rightarrow> bool" where
  "usage_flag_step usage_found key_cmd =
     (if key_cmd = 0x8 then True
      else if key_cmd = 0xa0 \<or> key_cmd = 0x80 \<or> key_cmd = 0x90
              \<or> key_cmd = 0xb0 \<or> key_cmd = 0xc0 then False
      else usage_found)"





section \<open>Reading the uevent text\<close>

text \<open>A C string is modelled by the list of its characters before the terminating NUL.
  \<^verbatim>\<open>sscanf\<close>, \<^verbatim>\<open>strtok_r\<close>, \<^verbatim>\<open>strchr\<close> and \<^verbatim>\<open>strtol\<close> belong to the C library; they are
  modelled from their documented behaviour (glibc, "C" locale).\<close>

definition isspace :: "char \<Rightarrow> bool" where
  "isspace c = (c = CHR '' '' \<or> c = CHR 0x09 \<or> c = CHR 0x0A \<or> c = CHR 0x0B
                \<or> c = CHR 0x0C \<or> c = CHR 0x0D)"

definition hex_digit_value :: "char \<Rightarrow> nat option" where
  "hex_digit_value c =
    (let n = (of_char c :: nat) in
     if 48 \<le> n \<and> n \<le> 57 then Some (n - 48)
     else if 97 \<le> n \<and> n \<le> 102 then Some (n - 87)
     else if 65 \<le> n \<and> n \<le> 70 then Some (n - 55)
     else None)"

definition isxdigit :: "char \<Rightarrow> bool" where
  "isxdigit c = (hex_digit_value c \<noteq> None)"

fun hex_value :: "nat \<Rightarrow> string \<Rightarrow> nat" where
  "hex_value acc [] = acc"
| "hex_value acc (c # cs) =
     hex_value (16 * acc + (case hex_digit_value c of Some d \<Rightarrow> d | None \<Rightarrow> 0)) cs"

text \<open>The value \<^verbatim>\<open>strtoul\<close> gives for a digit string: \<^verbatim>\<open>ULONG_MAX\<close> when the number does not
  fit 64 bits, the negated value (modulo \<open>2 ^ 64\<close>) after a minus sign.\<close>

definition strtoul_result :: "bool \<Rightarrow> nat \<Rightarrow> nat" where
  "strtoul_result negative v =
     (if v \<ge> 2 ^ 64 then 2 ^ 64 - 1
      else if negative then (2 ^ 64 - v) mod 2 ^ 64
      else v)"

text \<open>One \<^verbatim>\<open>%x\<close> conversion of \<^verbatim>\<open>sscanf\<close>: white space is skipped, then an optional sign,
  an optional \<^verbatim>\<open>0x\<close> prefix and the hexadecimal digits are read.\<close>

datatype scan_result = Input_Failure | Matching_Failure | Converted nat string

definition scan_hex :: "string \<Rightarrow> scan_result" where
  "scan_hex s =
    (let s1 = dropWhile isspace s in
     if s1 = [] then Input_Failure
     else
       let negative = (hd s1 = CHR ''-'');
           s2 = (if hd s1 = CHR ''-'' \<or> hd s1 = CHR ''+'' then tl s1 else s1);
           zero = (s2 \<noteq> [] \<and> hd s2 = CHR ''0'');
           s3 = (if zero
                 then (if tl s2 \<noteq> [] \<and> (hd (tl s2) = CHR ''x'' \<or> hd (tl s2) = CHR ''X'')
                       then tl (tl s2) else tl s2)
                 else s2);
           digits = (if zero then ''0'' else []) @ takeWhile isxdigit s3;
           rest = dropWhile isxdigit s3
       in if digits = [] then (if s2 = [] then Input_Failure else Matching_Failure)
          else Converted (strtoul_result negative (hex_value 0 digits)) rest)"

text \<open>\<^verbatim>\<open>sscanf(value, "%x:%hx:%hx", bus_type, vendor_id, product_id)\<close>: the return value
  and, for each argument, the value stored (\<open>None\<close> when the argument is not written).\<close>

definition sscanf_x_hx_hx :: "string \<Rightarrow> int \<times> u32 option \<times> u16 option \<times> u16 option" where
  "sscanf_x_hx_hx s =
    (case scan_hex s of
       Input_Failure \<Rightarrow> (- 1, None, None, None)
     | Matching_Failure \<Rightarrow> (0, None, None, None)
     | Converted b r1 \<Rightarrow>
         if r1 = [] \<or> hd r1 \<noteq> CHR '':'' then (1, Some (of_nat b), None, None)
         else
           (case scan_hex (tl r1) of
              Converted v r2 \<Rightarrow>
                if r2 = [] \<or> hd r2 \<noteq> CHR '':'' then (2, Some (of_nat b), Some (of_nat v), None)
                else
                  (case scan_hex (tl r2) of
                     Converted p r3 \<Rightarrow> (3, Some (of_nat b), Some (of_nat v), Some (of_nat p))
                   | _ \<Rightarrow> (2, Some (of_nat b), Some (of_nat v), None))
            | _ \<Rightarrow> (1, Some (of_nat b), None, None)))"

text \<open>\<^verbatim>\<open>strtok_r\<close> with the single delimiter \<^verbatim>\<open>"\n"\<close>: leading delimiters are skipped; the
  token runs to the next delimiter; the scan resumes behind it.  The result is the
  token and the rest of the string, \<open>None\<close> when no token is left.\<close>

definition newline :: char where
  "newline = CHR 0x0A"

definition strtok_r :: "string \<Rightarrow> (string \<times> string) option" where
  "strtok_r s =
    (let s' = dropWhile (\<lambda>c. c = newline) s in
     if s' = [] then None
     else Some (takeWhile (\<lambda>c. c \<noteq> newline) s',
                drop 1 (dropWhile (\<lambda>c. c \<noteq> newline) s')))"

text \<open>\<^verbatim>\<open>value = strchr(line, '='); *value = '\0'; value++\<close>: the key before the first
  \<open>=\<close> and the value behind it.\<close>

definition split_key_value :: "string \<Rightarrow> (string \<times> string) option" where
  "split_key_value line =
    (if CHR ''='' \<in> set line
     then Some (takeWhile (\<lambda>c. c \<noteq> CHR ''='') line,
                drop 1 (dropWhile (\<lambda>c. c \<noteq> CHR ''='') line))
     else None)"

text \<open>The variables written by \<^verbatim>\<open>parse_uevent_info\<close>.  An output argument the call has not
  written is \<open>None\<close>; \<^verbatim>\<open>strdup\<close> is modelled by the copy of the value.\<close>

record uevent_vars =
  ue_bus_type :: "u32 option"
  ue_vendor_id :: "u16 option"
  ue_product_id :: "u16 option"
  serial_number_utf8 :: "string option"
  product_name_utf8 :: "string option"
  found_id :: bool
  found_serial :: bool
  found_name :: bool

definition uevent_vars_init :: uevent_vars where
  "uevent_vars_init =
     \<lparr>ue_bus_type = None, ue_vendor_id = None, ue_product_id = None,
      serial_number_utf8 = None, product_name_utf8 = None,
      found_id = False, found_serial = False, found_name = False\<rparr>"

text \<open>The three stores of one \<^verbatim>\<open>sscanf\<close> call: an argument is overwritten only when its
  conversion succeeded.\<close>

definition store_ids ::
  "u32 option \<times> u16 option \<times> u16 option \<Rightarrow> u32 option \<times> u16 option \<times> u16 option
   \<Rightarrow> u32 option \<times> u16 option \<times> u16 option" where
  "store_ids old new =
    (case (old, new) of
       ((b, v, p), (b', v', p')) \<Rightarrow>
         (if b' = None then b else b', if v' = None then v else v',
          if p' = None then p else p'))"

text \<open>The body of the \<^verbatim>\<open>while (line != NULL)\<close> loop of \<^verbatim>\<open>parse_uevent_info\<close> for one
  line.\<close>

definition parse_uevent_line :: "uevent_vars \<Rightarrow> string \<Rightarrow> uevent_vars" where
  "parse_uevent_line st line =
    (case split_key_value line of
       None \<Rightarrow> st
     | Some (key, val) \<Rightarrow>
         if key = ''HID_ID'' then
           (case sscanf_x_hx_hx val of
              (ret, scanned) \<Rightarrow>
                (case store_ids (ue_bus_type st, ue_vendor_id st, ue_product_id st) scanned of
                   (b, v, p) \<Rightarrow>
                     st\<lparr>ue_bus_type := b, ue_vendor_id := v, ue_product_id := p,
                        found_id := (if ret = 3 then True else found_id st)\<rparr>))
         else if key = ''HID_NAME'' then
           st\<lparr>product_name_utf8 := Some val, found_name := True\<rparr>
         else if key = ''HID_UNIQ'' then
           st\<lparr>serial_number_utf8 := Some val, found_serial := True\<rparr>
         else st)"

lemma strtok_r_shorter:
  "strtok_r s = Some (line, rest) \<Longrightarrow> length rest < length s"
proof -
  assume a: "strtok_r s = Some (line, rest)"
  define s' where "s' = dropWhile (\<lambda>c. c = newline) s"
  from a have ne: "s' \<noteq> []" and r: "rest = drop 1 (dropWhile (\<lambda>c. c \<noteq> newline) s')"
    by (auto simp: strtok_r_def Let_def s'_def split: if_splits)
  from ne have "hd s' \<noteq> newline"
    unfolding s'_def by (metis (mono_tags, lifting) hd_dropWhile)
  with ne have "length (dropWhile (\<lambda>c. c \<noteq> newline) s') < length s'"
    by (cases s') (auto simp: le_imp_less_Suc length_dropWhile_le)
  moreover have "length s' \<le> length s"
    unfolding s'_def by (rule length_dropWhile_le)
  ultimately show ?thesis using r by simp
qed

function parse_uevent_loop :: "uevent_vars \<Rightarrow> string \<Rightarrow> uevent_vars" where
  "parse_uevent_loop st s =
    (case strtok_r s of
       None \<Rightarrow> st
     | Some (line, rest) \<Rightarrow> parse_uevent_loop (parse_uevent_line st line) rest)"
  by pat_completeness auto
termination
  by (relation "measure (\<lambda>(st, s). length s)") (auto simp: strtok_r_shorter)

declare parse_uevent_loop.simps [simp del]

text \<open>\<^verbatim>\<open>parse_uevent_info\<close>: the text is copied into \<^verbatim>\<open>char tmp[1024]\<close>, cut to 1023
  characters.  The result is the return value and the variables.\<close>

definition parse_uevent_info :: "string \<Rightarrow> int \<times> uevent_vars" where
  "parse_uevent_info uevent =
    (let tmp = take 1023 uevent;
         st = parse_uevent_loop uevent_vars_init tmp
     in (if found_id st \<and> found_name st \<and> found_serial st then 1 else 0, st))"

text \<open>\<^verbatim>\<open>parse_hid_vid_pid_from_uevent\<close> returns 1 at the first \<^verbatim>\<open>HID_ID\<close> line whose three
  fields convert, 0 when the lines are exhausted.  The second component holds
  \<^verbatim>\<open>*bus_type\<close>, \<^verbatim>\<open>*vendor_id\<close>, \<^verbatim>\<open>*product_id\<close>.\<close>

function parse_hid_vid_pid_loop ::
  "u32 option \<times> u16 option \<times> u16 option \<Rightarrow> string
   \<Rightarrow> int \<times> u32 option \<times> u16 option \<times> u16 option" where
  "parse_hid_vid_pid_loop ids s =
    (case strtok_r s of
       None \<Rightarrow> (0, ids)
     | Some (line, rest) \<Rightarrow>
         (case split_key_value line of
            None \<Rightarrow> parse_hid_vid_pid_loop ids rest
          | Some (key, val) \<Rightarrow>
              if key = ''HID_ID'' then
                (case sscanf_x_hx_hx val of
                   (ret, scanned) \<Rightarrow>
                     if ret = 3 then (1, store_ids ids scanned)
                     else parse_hid_vid_pid_loop (store_ids ids scanned) rest)
              else parse_hid_vid_pid_loop ids rest))"
  by pat_completeness auto
termination
  by (relation "measure (\<lambda>(ids, s). length s)") (auto simp: strtok_r_shorter)

declare parse_hid_vid_pid_loop.simps [simp del]

definition parse_hid_vid_pid_from_uevent ::
  "string \<Rightarrow> u32 option \<times> u16 option \<times> u16 option
   \<Rightarrow> int \<times> u32 option \<times> u16 option \<times> u16 option" where
  "parse_hid_vid_pid_from_uevent uevent ids =
     parse_hid_vid_pid_loop ids (take 1023 uevent)"

text \<open>The lines of a text: the pieces between newline characters.\<close>

fun text_lines :: "string \<Rightarrow> string list" where
  "text_lines [] = [[]]"
| "text_lines (c # cs) =
     (if c = newline then [] # text_lines cs
      else (case text_lines cs of
              [] \<Rightarrow> [[c]]
            | l # ls \<Rightarrow> (c # l) # ls))"

text \<open>The specification's condition on a uevent text, over its lines: some line is
  \<^verbatim>\<open>HID_ID=<value>\<close> with a value of which \<^verbatim>\<open>%x:%hx:%hx\<close> converts all three fields, some
  line is \<^verbatim>\<open>HID_NAME=<value>\<close>, and some line is \<^verbatim>\<open>HID_UNIQ=<value>\<close>.\<close>

definition is_key_line :: "string \<Rightarrow> string \<Rightarrow> bool" where
  "is_key_line key line = (take (length key + 1) line = key @ ''='')"

definition is_hid_id_line :: "string \<Rightarrow> bool" where
  "is_hid_id_line line =
     (is_key_line ''HID_ID'' line \<and> fst (sscanf_x_hx_hx (drop 7 line)) = 3)"

definition has_all_keys :: "string list \<Rightarrow> bool" where
  "has_all_keys lines =
     (list_ex is_hid_id_line lines
      \<and> list_ex (is_key_line ''HID_NAME'') lines
      \<and> list_ex (is_key_line ''HID_UNIQ'') lines)"


section \<open>Device information records\<close>

subsection \<open>Allocation\<close>

text \<open>\<^verbatim>\<open>calloc\<close>, \<^verbatim>\<open>strdup\<close> and \<^verbatim>\<open>wcsdup\<close> take a fresh address from the allocator or fail.
  \<open>outcomes\<close> lists the results of the coming requests (\<open>False\<close>: the request fails);
  once the list is used up every request succeeds.\<close>

record allocator =
  next_addr :: nat
  outcomes :: "bool list"

definition malloc :: "allocator \<Rightarrow> nat option \<times> allocator" where
  "malloc a =
    (case outcomes a of
       False # rest \<Rightarrow> (None, a\<lparr>outcomes := rest\<rparr>)
     | _ \<Rightarrow> (Some (next_addr a),
             \<lparr>next_addr = Suc (next_addr a), outcomes = tl (outcomes a)\<rparr>))"

text \<open>The strings of a record are written once, when they are allocated.  A pointer is
  therefore \<open>None\<close> (\<^verbatim>\<open>NULL\<close>) or the address of the allocated object together with the
  object stored there.\<close>

type_synonym 'a ptr = "(nat \<times> 'a) option"

type_synonym wstring = "u32 list"

definition ptr_value :: "'a ptr \<Rightarrow> 'a option" where
  "ptr_value p = map_option snd p"

definition strdup :: "string \<Rightarrow> allocator \<Rightarrow> string ptr \<times> allocator" where
  "strdup s a =
    (case malloc a of
       (None, a') \<Rightarrow> (None, a')
     | (Some p, a') \<Rightarrow> (Some (p, s), a'))"

definition wcsdup :: "wstring \<Rightarrow> allocator \<Rightarrow> wstring ptr \<times> allocator" where
  "wcsdup s a =
    (case malloc a of
       (None, a') \<Rightarrow> (None, a')
     | (Some p, a') \<Rightarrow> (Some (p, s), a'))"

text \<open>\<^verbatim>\<open>utf8_to_wchar_t\<close>.  The conversion \<^verbatim>\<open>mbstowcs\<close> depends on the locale of the process
  and is a parameter: it gives the wide string, or \<open>None\<close> for an invalid sequence
  (\<^verbatim>\<open>(size_t) -1\<close>).\<close>

definition utf8_to_wchar_t ::
  "(string \<Rightarrow> wstring option) \<Rightarrow> string option \<Rightarrow> allocator \<Rightarrow> wstring ptr \<times> allocator" where
  "utf8_to_wchar_t mbstowcs utf8 a =
    (case utf8 of
       None \<Rightarrow> (None, a)
     | Some s \<Rightarrow>
         (case mbstowcs s of
            None \<Rightarrow> wcsdup [] a
          | Some w \<Rightarrow>
              (case malloc a of
                 (None, a') \<Rightarrow> (None, a')
               | (Some p, a') \<Rightarrow> (Some (p, w), a'))))"

subsection \<open>The udev device of a hidraw node\<close>

text \<open>What \<^verbatim>\<open>create_device_info_for_device\<close> reads from libudev and sysfs for one raw
  device: its paths, the \<^verbatim>\<open>uevent\<close> attribute of the parent in the subsystem "hid"
  (\<open>None\<close>: no such parent), the attributes of the "usb"/"usb_device" parent, the
  \<^verbatim>\<open>bInterfaceNumber\<close> attribute of the "usb"/"usb_interface" parent, and the content of
  \<^verbatim>\<open><syspath>/device/report_descriptor\<close> (\<open>None\<close>: \<^verbatim>\<open>open\<close> or \<^verbatim>\<open>read\<close> fails).\<close>

record usb_device_attrs =
  manufacturer :: "string option"
  product :: "string option"
  bcdDevice :: "string option"

record udev_device =
  syspath :: string
  devnode :: "string option"
  hid_parent_uevent :: "string option"
  usb_device_parent :: "usb_device_attrs option"
  usb_interface_parent :: "string option option"
  report_descriptor_file :: "u8 list option"

text \<open>Modelled from the spec: the bus-type constants, "the kernel values matching
  BLUETOOTH, USB, I2C, SPI" of \<^verbatim>\<open>linux/input.h\<close>, and the enumeration \<^verbatim>\<open>hid_bus_type\<close> of
  \<^verbatim>\<open>hidapi.h\<close>, whose declarations are not part of the source file.\<close>

definition BUS_USB :: u32 where "BUS_USB = 0x03"
definition BUS_BLUETOOTH :: u32 where "BUS_BLUETOOTH = 0x05"
definition BUS_I2C :: u32 where "BUS_I2C = 0x18"
definition BUS_SPI :: u32 where "BUS_SPI = 0x1C"

datatype hid_bus_type =
  HID_API_BUS_UNKNOWN | HID_API_BUS_USB | HID_API_BUS_BLUETOOTH | HID_API_BUS_I2C
  | HID_API_BUS_SPI

text \<open>\<^verbatim>\<open>struct hid_device_info\<close>; the \<^verbatim>\<open>next\<close> links are the order of a list of
  records.\<close>

record hid_device_info =
  path :: "string ptr"
  vendor_id :: u16
  product_id :: u16
  serial_number :: "wstring ptr"
  release_number :: u16
  manufacturer_string :: "wstring ptr"
  product_string :: "wstring ptr"
  usage_page :: u16
  usage :: u16
  interface_number :: int
  bus_type :: hid_bus_type

text \<open>\<^verbatim>\<open>strtol(str, NULL, 16)\<close>: white space, an optional sign, an optional \<^verbatim>\<open>0x\<close> before
  a digit, then the digits; 0 without digits; the result is clamped to \<^verbatim>\<open>long\<close>.\<close>

definition strtol_16 :: "string \<Rightarrow> int" where
  "strtol_16 s =
    (let s1 = dropWhile isspace s;
         negative = (s1 \<noteq> [] \<and> hd s1 = CHR ''-'');
         s2 = (if s1 \<noteq> [] \<and> (hd s1 = CHR ''-'' \<or> hd s1 = CHR ''+'') then tl s1 else s1);
         s3 = (case s2 of
                 z # x # d # r \<Rightarrow>
                   if z = CHR ''0'' \<and> (x = CHR ''x'' \<or> x = CHR ''X'') \<and> isxdigit d
                   then d # r else s2
               | _ \<Rightarrow> s2);
         v = int (hex_value 0 (takeWhile isxdigit s3))
     in if negative then max (- (2 ^ 63)) (- v) else min (2 ^ 63 - 1) v)"

text \<open>The conversions of the \<^verbatim>\<open>long\<close> result to \<^verbatim>\<open>unsigned short\<close> and to \<^verbatim>\<open>int\<close>.\<close>

definition long_to_ushort :: "int \<Rightarrow> u16" where
  "long_to_ushort x = word_of_int x"

definition long_to_int :: "int \<Rightarrow> int" where
  "long_to_int x = sint (word_of_int x :: 32 word)"

text \<open>\<^verbatim>\<open>get_hid_report_descriptor_from_sysfs\<close>: the buffer is cleared and at most
  \<^verbatim>\<open>HID_MAX_DESCRIPTOR_SIZE\<close> bytes are read into it.  The result is \<open>None\<close> when the
  return value is negative, else the buffer \<^verbatim>\<open>value\<close> and \<^verbatim>\<open>size\<close>.\<close>

definition get_hid_report_descriptor_from_sysfs :: "udev_device \<Rightarrow> (u8 list \<times> nat) option" where
  "get_hid_report_descriptor_from_sysfs raw_dev =
    (case report_descriptor_file raw_dev of
       None \<Rightarrow> None
     | Some bytes \<Rightarrow>
         let res = min (length bytes) HID_MAX_DESCRIPTOR_SIZE
         in Some (take res bytes @ replicate (HID_MAX_DESCRIPTOR_SIZE - res) 0, res))"

text \<open>The second \<^verbatim>\<open>switch (bus_type)\<close> of \<^verbatim>\<open>create_device_info_for_device\<close>: the
  manufacturer and product strings, the bus type, and for USB the release and
  interface numbers.\<close>

definition fill_bus_fields ::
  "(string \<Rightarrow> wstring option) \<Rightarrow> udev_device \<Rightarrow> u32 \<Rightarrow> string option \<Rightarrow> hid_device_info
   \<Rightarrow> allocator \<Rightarrow> hid_device_info \<times> allocator" where
  "fill_bus_fields mbstowcs raw_dev bus product_name cur_dev a =
    (if bus = BUS_USB then
       (case usb_device_parent raw_dev of
          None \<Rightarrow>
            (case wcsdup [] a of
               (m, a1) \<Rightarrow>
                 (case utf8_to_wchar_t mbstowcs product_name a1 of
                    (p, a2) \<Rightarrow>
                      (cur_dev\<lparr>manufacturer_string := m, product_string := p\<rparr>, a2)))
        | Some usb_dev \<Rightarrow>
            (case utf8_to_wchar_t mbstowcs (manufacturer usb_dev) a of
               (m, a1) \<Rightarrow>
                 (case utf8_to_wchar_t mbstowcs (product usb_dev) a1 of
                    (p, a2) \<Rightarrow>
                      (cur_dev\<lparr>manufacturer_string := m, product_string := p,
                         bus_type := HID_API_BUS_USB,
                         release_number :=
                           (case bcdDevice usb_dev of
                              None \<Rightarrow> 0
                            | Some str \<Rightarrow> long_to_ushort (strtol_16 str)),
                         interface_number :=
                           (case usb_interface_parent raw_dev of
                              None \<Rightarrow> interface_number cur_dev
                            | Some None \<Rightarrow> - 1
                            | Some (Some str) \<Rightarrow> long_to_int (strtol_16 str))\<rparr>, a2))))
     else if bus = BUS_BLUETOOTH \<or> bus = BUS_I2C \<or> bus = BUS_SPI then
       (case wcsdup [] a of
          (m, a1) \<Rightarrow>
            (case utf8_to_wchar_t mbstowcs product_name a1 of
               (p, a2) \<Rightarrow>
                 (cur_dev\<lparr>manufacturer_string := m, product_string := p,
                    bus_type := (if bus = BUS_BLUETOOTH then HID_API_BUS_BLUETOOTH
                                 else if bus = BUS_I2C then HID_API_BUS_I2C
                                 else HID_API_BUS_SPI)\<rparr>, a2)))
     else (cur_dev, a))"

text \<open>The body of the \<^verbatim>\<open>while\<close> loop that creates a record for an additional usage pair:
  the strings of \<^verbatim>\<open>prev_dev\<close> are duplicated.\<close>

definition copy_wstring :: "wstring ptr \<Rightarrow> allocator \<Rightarrow> wstring ptr \<times> allocator" where
  "copy_wstring p a = (case p of None \<Rightarrow> (None, a) | Some (addr, w) \<Rightarrow> wcsdup w a)"

definition new_usage_record ::
  "string option \<Rightarrow> u16 \<Rightarrow> u16 \<Rightarrow> hid_device_info \<Rightarrow> u16 \<Rightarrow> u16 \<Rightarrow> allocator
   \<Rightarrow> hid_device_info \<times> allocator" where
  "new_usage_record dev_path dev_vid dev_pid prev_dev page us a =
    (case (case dev_path of None \<Rightarrow> (None, a) | Some p \<Rightarrow> strdup p a) of
       (path', a1) \<Rightarrow>
         (case copy_wstring (serial_number prev_dev) a1 of
            (serial', a2) \<Rightarrow>
              (case copy_wstring (manufacturer_string prev_dev) a2 of
                 (manufacturer', a3) \<Rightarrow>
                   (case copy_wstring (product_string prev_dev) a3 of
                      (product', a4) \<Rightarrow>
                        (\<lparr>path = path', vendor_id = dev_vid, product_id = dev_pid,
                          serial_number = serial',
                          release_number = release_number prev_dev,
                          manufacturer_string = manufacturer',
                          product_string = product',
                          usage_page = page, usage = us,
                          interface_number = interface_number prev_dev,
                          bus_type = bus_type prev_dev\<rparr>, a4)))))"

text \<open>The loop \<^verbatim>\<open>while (!get_next_hid_usage(...))\<close>: the records appended behind
  \<^verbatim>\<open>cur_dev\<close>.  When \<^verbatim>\<open>calloc\<close> fails the pair is skipped (\<^verbatim>\<open>continue\<close>).\<close>

partial_function (option) additional_usage_records ::
  "u8 list \<Rightarrow> nat \<Rightarrow> string option \<Rightarrow> u16 \<Rightarrow> u16 \<Rightarrow> nat \<Rightarrow> u16 \<Rightarrow> u16 \<Rightarrow> hid_device_info
   \<Rightarrow> allocator \<Rightarrow> (hid_device_info list \<times> allocator) option"
where
  "additional_usage_records rpt sz dev_path dev_vid dev_pid pos page us cur_dev a =
    (case get_next_hid_usage rpt sz pos page us of
       None \<Rightarrow> None
     | Some (ret, pos', page', us') \<Rightarrow>
         if ret \<noteq> 0 then Some ([], a)
         else
           (case malloc a of
              (None, a1) \<Rightarrow>
                additional_usage_records rpt sz dev_path dev_vid dev_pid pos' page' us'
                  cur_dev a1
            | (Some tmp, a1) \<Rightarrow>
                (case new_usage_record dev_path dev_vid dev_pid cur_dev page' us' a1 of
                   (new_dev, a2) \<Rightarrow>
                     Option.bind
                       (additional_usage_records rpt sz dev_path dev_vid dev_pid pos' page'
                          us' new_dev a2)
                       (\<lambda>(rest, a3). Some (new_dev # rest, a3)))))"

declare additional_usage_records.simps [code]

text \<open>The part of \<^verbatim>\<open>create_device_info_for_device\<close> commented "Usage Page and Usage".\<close>

definition usage_records ::
  "udev_device \<Rightarrow> u16 \<Rightarrow> u16 \<Rightarrow> hid_device_info \<Rightarrow> allocator
   \<Rightarrow> (hid_device_info list \<times> allocator) option" where
  "usage_records raw_dev dev_vid dev_pid cur_dev a =
    (case get_hid_report_descriptor_from_sysfs raw_dev of
       None \<Rightarrow> Some ([cur_dev], a)
     | Some (rpt, sz) \<Rightarrow>
         (case get_next_hid_usage rpt sz 0 0 0 of
            None \<Rightarrow> None
          | Some (ret, pos, page, us) \<Rightarrow>
              let cur_dev' = (if ret = 0 then cur_dev\<lparr>usage_page := page, usage := us\<rparr>
                              else cur_dev)
              in Option.bind
                   (additional_usage_records rpt sz (devnode raw_dev) dev_vid dev_pid
                      pos page us cur_dev' a)
                   (\<lambda>(rest, a'). Some (cur_dev' # rest, a'))))"

text \<open>\<^verbatim>\<open>create_device_info_for_device\<close>: the list of records from \<^verbatim>\<open>root\<close> on (empty for
  \<^verbatim>\<open>NULL\<close>) and the allocator afterwards; \<open>None\<close> if the call did not return.  The
  variables \<^verbatim>\<open>bus_type\<close>, \<^verbatim>\<open>dev_vid\<close> and \<^verbatim>\<open>dev_pid\<close> are read only after
  \<^verbatim>\<open>parse_uevent_info\<close> has succeeded, hence written.\<close>

definition create_device_info_for_device ::
  "(string \<Rightarrow> wstring option) \<Rightarrow> udev_device \<Rightarrow> allocator
   \<Rightarrow> (hid_device_info list \<times> allocator) option" where
  "create_device_info_for_device mbstowcs raw_dev a =
    (case hid_parent_uevent raw_dev of
       None \<Rightarrow> Some ([], a)
     | Some uevent \<Rightarrow>
         (case parse_uevent_info uevent of
            (result, vars) \<Rightarrow>
              if result = 0 then Some ([], a)
              else
                let bus = the (ue_bus_type vars);
                    dev_vid = the (ue_vendor_id vars);
                    dev_pid = the (ue_product_id vars)
                in
                  if \<not> (bus = BUS_BLUETOOTH \<or> bus = BUS_I2C \<or> bus = BUS_USB \<or> bus = BUS_SPI)
                  then Some ([], a)
                  else
                    (case malloc a of
                       (None, a1) \<Rightarrow> Some ([], a1)
                     | (Some root, a1) \<Rightarrow>
                         (case (case devnode raw_dev of
                                  None \<Rightarrow> (None, a1)
                                | Some p \<Rightarrow> strdup p a1) of
                            (path', a2) \<Rightarrow>
                              (case utf8_to_wchar_t mbstowcs (serial_number_utf8 vars) a2 of
                                 (serial', a3) \<Rightarrow>
                                   (case fill_bus_fields mbstowcs raw_dev bus
                                           (product_name_utf8 vars)
                                           \<lparr>path = path', vendor_id = dev_vid,
                                            product_id = dev_pid, serial_number = serial',
                                            release_number = 0,
                                            manufacturer_string = None,
                                            product_string = None,
                                            usage_page = 0, usage = 0,
                                            interface_number = - 1,
                                            bus_type = HID_API_BUS_UNKNOWN\<rparr> a3 of
                                      (cur_dev, a4) \<Rightarrow>
                                        usage_records raw_dev dev_vid dev_pid cur_dev a4))))))"

subsection \<open>Views of a record\<close>

text \<open>The fields of a record other than \<^verbatim>\<open>usage_page\<close> and \<^verbatim>\<open>usage\<close>, strings by content.\<close>

definition device_fields ::
  "hid_device_info \<Rightarrow>
     string option \<times> u16 \<times> u16 \<times> wstring option \<times> u16 \<times> wstring option \<times> wstring option
     \<times> int \<times> hid_bus_type" where
  "device_fields d =
     (ptr_value (path d), vendor_id d, product_id d, ptr_value (serial_number d),
      release_number d, ptr_value (manufacturer_string d), ptr_value (product_string d),
      interface_number d, bus_type d)"

definition usage_pair :: "hid_device_info \<Rightarrow> u16 \<times> u16" where
  "usage_pair d = (usage_page d, usage d)"

text \<open>The addresses of the strings a record owns (\<^verbatim>\<open>NULL\<close> fields own nothing).\<close>

definition addr_list :: "'a ptr \<Rightarrow> nat list" where
  "addr_list p = (case p of None \<Rightarrow> [] | Some (addr, x) \<Rightarrow> [addr])"

definition string_addrs :: "hid_device_info \<Rightarrow> nat list" where
  "string_addrs d =
     addr_list (path d) @ addr_list (serial_number d) @ addr_list (manufacturer_string d)
     @ addr_list (product_string d)"

text \<open>The nodes \<^verbatim>\<open>create_device_info_for_device\<close> does not drop: there is a parent in the
  subsystem "hid", its uevent text parses, and the bus type is one of the four handled
  ones.\<close>

definition node_accepted :: "udev_device \<Rightarrow> bool" where
  "node_accepted raw_dev =
    (case hid_parent_uevent raw_dev of
       None \<Rightarrow> False
     | Some uevent \<Rightarrow>
         (case parse_uevent_info uevent of
            (result, vars) \<Rightarrow>
              result \<noteq> 0
              \<and> (the (ue_bus_type vars) = BUS_BLUETOOTH \<or> the (ue_bus_type vars) = BUS_I2C
                 \<or> the (ue_bus_type vars) = BUS_USB \<or> the (ue_bus_type vars) = BUS_SPI)))"

text \<open>The usage pairs the descriptor of a node yields: those of the parser driven from
  \<^verbatim>\<open>pos = 0\<close> with \<^verbatim>\<open>page = usage = 0\<close>; none when the descriptor cannot be read.\<close>

definition node_usage_pairs :: "udev_device \<Rightarrow> (u16 \<times> u16) list option" where
  "node_usage_pairs raw_dev =
    (case get_hid_report_descriptor_from_sysfs raw_dev of
       None \<Rightarrow> Some []
     | Some (rpt, sz) \<Rightarrow> hid_usage_pairs rpt sz 0 0 0)"

text \<open>A string allocation that succeeds or is not attempted: the result and the
  allocator afterwards.\<close>

definition allocated :: "'a ptr \<Rightarrow> 'a option \<Rightarrow> allocator \<Rightarrow> allocator \<Rightarrow> bool" where
  "allocated p content a a' =
     (outcomes a' = [] \<and> ptr_value p = content
      \<and> (case p of None \<Rightarrow> next_addr a' = next_addr a
                  | Some (addr, x) \<Rightarrow> addr = next_addr a \<and> next_addr a' = Suc (next_addr a)))"

text \<open>The wide string \<^verbatim>\<open>utf8_to_wchar_t\<close> produces when the allocation succeeds.\<close>

definition decoded :: "(string \<Rightarrow> wstring option) \<Rightarrow> string option \<Rightarrow> wstring option" where
  "decoded mbstowcs utf8 =
     (case utf8 of None \<Rightarrow> None
      | Some s \<Rightarrow> (case mbstowcs s of None \<Rightarrow> Some [] | Some w \<Rightarrow> Some w))"

text \<open>The content of the fields the second \<^verbatim>\<open>switch (bus_type)\<close> leaves in the record,
  when no allocation fails: release number, manufacturer string, product string,
  interface number and bus type.\<close>

definition bus_fields_content ::
  "(string \<Rightarrow> wstring option) \<Rightarrow> udev_device \<Rightarrow> u32 \<Rightarrow> string option
   \<Rightarrow> u16 \<times> wstring option \<times> wstring option \<times> int \<times> hid_bus_type" where
  "bus_fields_content mbstowcs raw_dev bus product_name =
    (if bus = BUS_USB then
       (case usb_device_parent raw_dev of
          None \<Rightarrow> (0, Some [], decoded mbstowcs product_name, - 1, HID_API_BUS_UNKNOWN)
        | Some usb_dev \<Rightarrow>
            ((case bcdDevice usb_dev of
                None \<Rightarrow> 0
              | Some str \<Rightarrow> long_to_ushort (strtol_16 str)),
             decoded mbstowcs (manufacturer usb_dev),
             decoded mbstowcs (product usb_dev),
             (case usb_interface_parent raw_dev of
                None \<Rightarrow> - 1
              | Some None \<Rightarrow> - 1
              | Some (Some str) \<Rightarrow> long_to_int (strtol_16 str)),
             HID_API_BUS_USB))
     else
       (0, Some [], decoded mbstowcs product_name, - 1,
        if bus = BUS_BLUETOOTH then HID_API_BUS_BLUETOOTH
        else if bus = BUS_I2C then HID_API_BUS_I2C
        else HID_API_BUS_SPI))"

text \<open>The fields other than the usage pair that every record of an accepted node
  carries, strings by content.\<close>

definition node_fields ::
  "(string \<Rightarrow> wstring option) \<Rightarrow> udev_device \<Rightarrow>
     string option \<times> u16 \<times> u16 \<times> wstring option \<times> u16 \<times> wstring option \<times> wstring option
     \<times> int \<times> hid_bus_type" where
  "node_fields mbstowcs raw_dev =
    (case hid_parent_uevent raw_dev of
       None \<Rightarrow> (None, 0, 0, None, 0, None, None, - 1, HID_API_BUS_UNKNOWN)
     | Some uevent \<Rightarrow>
         (case parse_uevent_info uevent of
            (result, vars) \<Rightarrow>
              (case bus_fields_content mbstowcs raw_dev (the (ue_bus_type vars))
                      (product_name_utf8 vars) of
                 (release, manufacturer', product', interface, bus) \<Rightarrow>
                   (devnode raw_dev, the (ue_vendor_id vars), the (ue_product_id vars),
                    decoded mbstowcs (serial_number_utf8 vars), release, manufacturer',
                    product', interface, bus))))"

subsection \<open>A sample node\<close>

text \<open>A keyboard on a virtual USB bus: uevent text and report descriptor of the
  specification's scenarios, and a variant of it on the bus type 0x06, which the
  function does not handle.  \<open>ascii_mbstowcs\<close> converts byte by byte.\<close>

definition sample_uevent :: "string \<Rightarrow> string" where
  "sample_uevent hid_id =
     ''HID_ID='' @ hid_id @ [newline] @ ''HID_NAME=Keyboard'' @ [newline]
     @ ''HID_UNIQ=abc'' @ [newline]"

definition sample_device :: "string \<Rightarrow> udev_device" where
  "sample_device hid_id =
     \<lparr>syspath = ''/sys/class/hidraw/hidraw0'', devnode = Some ''/dev/hidraw0'',
      hid_parent_uevent = Some (sample_uevent hid_id),
      usb_device_parent = None, usb_interface_parent = None,
      report_descriptor_file =
        Some [0x05, 0x01, 0x09, 0x06, 0xA1, 0x01, 0x05, 0x0C, 0x09, 0x01, 0xA1, 0x02,
              0xC0, 0xC0]\<rparr>"

definition ascii_mbstowcs :: "string \<Rightarrow> wstring option" where
  "ascii_mbstowcs s = Some (map (\<lambda>c. of_nat (of_char c)) s)"

definition fresh_allocator :: allocator where
  "fresh_allocator = \<lparr>next_addr = 0, outcomes = []\<rparr>"


section \<open>Enumeration\<close>

text \<open>What \<^verbatim>\<open>hid_enumerate\<close> gets from libudev and sysfs: whether \<^verbatim>\<open>udev_new\<close> succeeds,
  and for every entry of the "hidraw" scan its name (\<open>None\<close> for \<^verbatim>\<open>NULL\<close>), the content of
  \<^verbatim>\<open><name>/device/uevent\<close> (\<open>None\<close>: \<^verbatim>\<open>open\<close> or \<^verbatim>\<open>read\<close> fails) and the device
  \<^verbatim>\<open>udev_device_new_from_syspath\<close> returns (\<open>None\<close> for \<^verbatim>\<open>NULL\<close>); for the hotplug
  monitor, the descriptor \<^verbatim>\<open>udev_monitor_get_fd\<close> returns for a new monitor.\<close>

record udev_list_entry =
  entry_name :: "string option"
  uevent_file :: "string option"
  device_from_syspath :: "udev_device option"

record udev_system =
  udev_new_ok :: bool
  hidraw_entries :: "udev_list_entry list"
  monitor_socket_fd :: int


text \<open>\<^verbatim>\<open>parse_hid_vid_pid_from_sysfs\<close>: \<^verbatim>\<open>read\<close> stores at most 1024 bytes of the file in
  \<^verbatim>\<open>char buf[1024]\<close>, and the terminator is stored at \<^verbatim>\<open>buf[res]\<close>.  For a file of 1024
  bytes or more this store lies behind the buffer: the behaviour is undefined and the
  result is \<open>None\<close>.  A shorter file is parsed as it is.\<close>

definition parse_hid_vid_pid_from_sysfs ::
  "udev_list_entry \<Rightarrow> u32 option \<times> u16 option \<times> u16 option
   \<Rightarrow> (int \<times> u32 option \<times> u16 option \<times> u16 option) option" where
  "parse_hid_vid_pid_from_sysfs e ids =
    (case uevent_file e of
       None \<Rightarrow> Some (0, ids)
     | Some content \<Rightarrow>
         if length content < 1024
         then Some (parse_hid_vid_pid_from_uevent content ids)
         else None)"

text \<open>The test at the head of the loop body of \<^verbatim>\<open>hid_enumerate\<close>: \<open>Some True\<close> when the
  entry is skipped (\<^verbatim>\<open>continue\<close>), \<open>None\<close> when reading the file has no defined result.
  \<^verbatim>\<open>dev_vid\<close>, \<^verbatim>\<open>dev_pid\<close> and \<^verbatim>\<open>bus_type\<close> start as 0.\<close>

definition filtered_out :: "u16 \<Rightarrow> u16 \<Rightarrow> udev_list_entry \<Rightarrow> bool option" where
  "filtered_out v p e =
    (if v \<noteq> 0 \<or> p \<noteq> 0 then
       (case parse_hid_vid_pid_from_sysfs e (Some 0, Some 0, Some 0) of
          None \<Rightarrow> None
        | Some (ret, bus, dev_vid, dev_pid) \<Rightarrow>
            Some (if ret = 0 then True
                  else if v \<noteq> 0 \<and> Some v \<noteq> dev_vid then True
                  else if p \<noteq> 0 \<and> Some p \<noteq> dev_pid then True
                  else False))
     else Some False)"

text \<open>The loop over the entries: every sublist is linked behind the tail of the list
  built so far.  The result is \<open>None\<close> when a call inside the loop has no defined result
  or does not return.\<close>

fun enumerate_entries ::
  "(string \<Rightarrow> wstring option) \<Rightarrow> u16 \<Rightarrow> u16 \<Rightarrow> udev_list_entry list \<Rightarrow> allocator
   \<Rightarrow> (hid_device_info list \<times> allocator) option" where
  "enumerate_entries mbstowcs v p [] a = Some ([], a)"
| "enumerate_entries mbstowcs v p (e # es) a =
    (case entry_name e of
       None \<Rightarrow> enumerate_entries mbstowcs v p es a
     | Some sysfs_path \<Rightarrow>
         (case filtered_out v p e of
            None \<Rightarrow> None
          | Some skip \<Rightarrow>
              if skip then enumerate_entries mbstowcs v p es a
              else
                (case device_from_syspath e of
                   None \<Rightarrow> enumerate_entries mbstowcs v p es a
                 | Some raw_dev \<Rightarrow>
                     (case create_device_info_for_device mbstowcs raw_dev a of
                        None \<Rightarrow> None
                      | Some (tmp, a') \<Rightarrow>
                          Option.bind (enumerate_entries mbstowcs v p es a')
                            (\<lambda>(rest, a''). Some (tmp @ rest, a''))))))"

text \<open>\<^verbatim>\<open>hid_enumerate\<close>: the list returned (empty for \<^verbatim>\<open>NULL\<close>).  The last-error string is
  not part of the model.\<close>

definition hid_enumerate ::
  "(string \<Rightarrow> wstring option) \<Rightarrow> udev_system \<Rightarrow> u16 \<Rightarrow> u16 \<Rightarrow> allocator
   \<Rightarrow> (hid_device_info list \<times> allocator) option" where
  "hid_enumerate mbstowcs sys v p a =
    (if \<not> udev_new_ok sys then Some ([], a)
     else enumerate_entries mbstowcs v p (hidraw_entries sys) a)"

text \<open>A record without its addresses: the fields by content and the usage pair.\<close>

definition device_view ::
  "hid_device_info \<Rightarrow>
     (string option \<times> u16 \<times> u16 \<times> wstring option \<times> u16 \<times> wstring option \<times> wstring option
      \<times> int \<times> hid_bus_type) \<times> (u16 \<times> u16)" where
  "device_view d = (device_fields d, usage_pair d)"





text \<open>The pre-filter loop over a list of lines.\<close>

fun scan_lines ::
  "u32 option \<times> u16 option \<times> u16 option \<Rightarrow> string list
   \<Rightarrow> int \<times> u32 option \<times> u16 option \<times> u16 option" where
  "scan_lines ids [] = (0, ids)"
| "scan_lines ids (line # rest) =
    (case split_key_value line of
       None \<Rightarrow> scan_lines ids rest
     | Some (key, val) \<Rightarrow>
         if key = ''HID_ID'' then
           (case sscanf_x_hx_hx val of
              (ret, scanned) \<Rightarrow>
                if ret = 3 then (1, store_ids ids scanned)
                else scan_lines (store_ids ids scanned) rest)
         else scan_lines ids rest)"

declare scan_lines.simps(2) [simp del]

text \<open>The records of a node and of an entry, without addresses, when no allocation
  fails.\<close>

definition node_views ::
  "(string \<Rightarrow> wstring option) \<Rightarrow> udev_device \<Rightarrow>
     ((string option \<times> u16 \<times> u16 \<times> wstring option \<times> u16 \<times> wstring option \<times> wstring option
       \<times> int \<times> hid_bus_type) \<times> (u16 \<times> u16)) list" where
  "node_views mbstowcs raw_dev =
    (if node_accepted raw_dev
     then map (\<lambda>pair. (node_fields mbstowcs raw_dev, pair))
            (case node_usage_pairs raw_dev of
               None \<Rightarrow> []
             | Some pairs \<Rightarrow> if pairs = [] then [(0, 0)] else pairs)
     else [])"

definition entry_views ::
  "(string \<Rightarrow> wstring option) \<Rightarrow> u16 \<Rightarrow> u16 \<Rightarrow> udev_list_entry \<Rightarrow>
     ((string option \<times> u16 \<times> u16 \<times> wstring option \<times> u16 \<times> wstring option \<times> wstring option
       \<times> int \<times> hid_bus_type) \<times> (u16 \<times> u16)) list" where
  "entry_views mbstowcs v p e =
    (case entry_name e of
       None \<Rightarrow> []
     | Some sysfs_path \<Rightarrow>
         if filtered_out v p e = Some False
         then (case device_from_syspath e of
                 None \<Rightarrow> []
               | Some raw_dev \<Rightarrow> node_views mbstowcs raw_dev)
         else [])"

text \<open>The three identifiers among the variables of \<^verbatim>\<open>parse_uevent_info\<close>.\<close>

definition ids_of :: "uevent_vars \<Rightarrow> u32 option \<times> u16 option \<times> u16 option" where
  "ids_of st = (ue_bus_type st, ue_vendor_id st, ue_product_id st)"


text \<open>A sample system with two keyboards of different vendors.\<close>

definition sample_entry :: "string \<Rightarrow> udev_list_entry" where
  "sample_entry hid_id =
     \<lparr>entry_name = Some ''/sys/class/hidraw/hidraw0'',
      uevent_file = Some (sample_uevent hid_id),
      device_from_syspath = Some (sample_device hid_id)\<rparr>"

definition sample_system :: udev_system where
  "sample_system =
     \<lparr>udev_new_ok = True,
      hidraw_entries = [sample_entry ''0003:000005AC:00008242'',
                        sample_entry ''0003:0000046D:0000C52B''],
      monitor_socket_fd = 7\<rparr>"







section \<open>Hotplug callbacks\<close>

text \<open>Modelled from the spec: the constants of \<^verbatim>\<open>hidapi.h\<close>, "event bitmask constants
  {ARRIVED=1, LEFT=2}; flag {ENUMERATE=1}", whose declarations are not part of the
  source file.\<close>

definition HID_API_HOTPLUG_EVENT_DEVICE_ARRIVED :: int where
  "HID_API_HOTPLUG_EVENT_DEVICE_ARRIVED = 1"

definition HID_API_HOTPLUG_EVENT_DEVICE_LEFT :: int where
  "HID_API_HOTPLUG_EVENT_DEVICE_LEFT = 2"

definition HID_API_HOTPLUG_ENUMERATE :: int where
  "HID_API_HOTPLUG_ENUMERATE = 1"

text \<open>\<^verbatim>\<open>struct hid_hotplug_callback\<close>.  A user callback runs in the caller's world \<open>'w\<close>:
  from the handle, the device, the event, the user data and the world it gives its
  return value and the world afterwards.  The \<^verbatim>\<open>next\<close> links are the order of a list.\<close>

record 'w hid_hotplug_callback =
  cb_handle :: int
  cb_vendor_id :: u16
  cb_product_id :: u16
  cb_events :: int
  cb_user_data :: nat
  cb_callback :: "int \<Rightarrow> hid_device_info \<Rightarrow> int \<Rightarrow> nat \<Rightarrow> 'w \<Rightarrow> int \<times> 'w"

text \<open>\<^verbatim>\<open>hid_hotplug_context\<close>.  \<open>udev_ctx\<close> tells whether the pointer is non-null;
  \<open>udev_ctx_live\<close> and \<open>mon_live\<close> tell whether the udev context and the monitor have been
  created and not yet released by \<^verbatim>\<open>udev_unref\<close> and \<^verbatim>\<open>udev_monitor_unref\<close>;
  \<open>thread_started\<close> records the call of \<^verbatim>\<open>pthread_create\<close>.\<close>

record 'w hid_hotplug_context =
  udev_ctx :: bool
  udev_ctx_live :: bool
  mon_live :: bool
  monitor_fd :: int
  thread_started :: bool
  next_handle :: int
  hotplug_cbs :: "'w hid_hotplug_callback list"
  devs :: "hid_device_info list"

definition hid_hotplug_context_init :: "'w hid_hotplug_context" where
  "hid_hotplug_context_init =
     \<lparr>udev_ctx = False, udev_ctx_live = False, mon_live = False, monitor_fd = - 1,
      thread_started = False, next_handle = 1, hotplug_cbs = [], devs = []\<rparr>"





text \<open>\<^verbatim>\<open>hid_internal_hotplug_cleanup\<close>.\<close>

definition hid_internal_hotplug_cleanup :: "'w hid_hotplug_context \<Rightarrow> 'w hid_hotplug_context" where
  "hid_internal_hotplug_cleanup ctx =
    (if hotplug_cbs ctx = []
     then ctx\<lparr>devs := [], mon_live := False, udev_ctx_live := False\<rparr>
     else ctx)"

text \<open>The \<^verbatim>\<open>for\<close> loop of \<^verbatim>\<open>hid_hotplug_deregister_callback\<close>: the first callback with the
  handle is unlinked; the result is \<^verbatim>\<open>result\<close> and the list.\<close>

fun unlink_callback ::
  "int \<Rightarrow> 'w hid_hotplug_callback list \<Rightarrow> int \<times> 'w hid_hotplug_callback list" where
  "unlink_callback callback_handle [] = (- 1, [])"
| "unlink_callback callback_handle (c # cs) =
    (if cb_handle c = callback_handle then (0, cs)
     else (case unlink_callback callback_handle cs of (result, cs') \<Rightarrow> (result, c # cs')))"

text \<open>\<^verbatim>\<open>hid_hotplug_deregister_callback\<close>.  The source calls
  \<^verbatim>\<open>hid_internal_cleanup_hotplugs\<close>, a name it does not define; the cleanup function it
  defines is \<^verbatim>\<open>hid_internal_hotplug_cleanup\<close>, which is what the call stands for here.\<close>

definition hid_hotplug_deregister_callback ::
  "int \<Rightarrow> 'w hid_hotplug_context \<Rightarrow> int \<times> 'w hid_hotplug_context" where
  "hid_hotplug_deregister_callback callback_handle ctx =
    (if hotplug_cbs ctx = [] then (- 1, ctx)
     else
       (case unlink_callback callback_handle (hotplug_cbs ctx) of
          (result, cbs) \<Rightarrow> (result, hid_internal_hotplug_cleanup (ctx\<lparr>hotplug_cbs := cbs\<rparr>))))"

text \<open>The test of the \<^verbatim>\<open>while\<close> loop of \<^verbatim>\<open>hotplug_thread\<close>: the worker goes on while it
  holds and returns when it fails.\<close>

definition hotplug_thread_continues :: "'w hid_hotplug_context \<Rightarrow> bool" where
  "hotplug_thread_continues ctx = (monitor_fd ctx > 0)"

text \<open>\<^verbatim>\<open>next_handle++\<close> on an \<^verbatim>\<open>int\<close>, followed by the reset to 1 when the counter has
  become negative.\<close>

definition increment_handle :: "int \<Rightarrow> int" where
  "increment_handle h =
    (let h' = sint (word_of_int (h + 1) :: 32 word) in if h' < 0 then 1 else h')"

text \<open>\<^verbatim>\<open>hid_hotplug_register_callback\<close>.  \<open>callback\<close> is \<open>None\<close> for a null function
  pointer; \<open>handle_out\<close> tells whether \<^verbatim>\<open>callback_handle\<close> is non-null.  The result is the
  return value, the value stored in \<^verbatim>\<open>*callback_handle\<close> if any, the context and the
  allocator.\<close>

definition hid_hotplug_register_callback ::
  "(string \<Rightarrow> wstring option) \<Rightarrow> udev_system \<Rightarrow> u16 \<Rightarrow> u16 \<Rightarrow> int \<Rightarrow> int
   \<Rightarrow> (int \<Rightarrow> hid_device_info \<Rightarrow> int \<Rightarrow> nat \<Rightarrow> 'w \<Rightarrow> int \<times> 'w) option \<Rightarrow> nat \<Rightarrow> bool
   \<Rightarrow> 'w hid_hotplug_context \<Rightarrow> allocator
   \<Rightarrow> (int \<times> int option \<times> 'w hid_hotplug_context \<times> allocator) option" where
  "hid_hotplug_register_callback mbstowcs sys vid pid events flags callback user_data
     handle_out ctx a =
    (if events = 0
        \<or> events AND NOT (HID_API_HOTPLUG_EVENT_DEVICE_ARRIVED
                           OR HID_API_HOTPLUG_EVENT_DEVICE_LEFT) \<noteq> 0
        \<or> flags AND NOT HID_API_HOTPLUG_ENUMERATE \<noteq> 0
        \<or> callback = None
     then Some (- 1, None, ctx, a)
     else
       (case malloc a of
          (None, a1) \<Rightarrow> Some (- 1, None, ctx, a1)
        | (Some addr, a1) \<Rightarrow>
            let hotplug_cb =
                  \<lparr>cb_handle = next_handle ctx, cb_vendor_id = vid, cb_product_id = pid,
                   cb_events = events, cb_user_data = user_data,
                   cb_callback = the callback\<rparr>;
                ctx1 = ctx\<lparr>next_handle := increment_handle (next_handle ctx)\<rparr>;
                stored = (if handle_out then Some (cb_handle hotplug_cb) else None)
            in
              if hotplug_cbs ctx1 \<noteq> []
              then Some (- 1, stored,
                     ctx1\<lparr>hotplug_cbs := hotplug_cbs ctx1 @ [hotplug_cb]\<rparr>, a1)
              else if \<not> udev_new_ok sys
              then Some (- 1, stored, ctx1\<lparr>udev_ctx := False\<rparr>, a1)
              else
                (case hid_enumerate mbstowcs sys 0 0 a1 of
                   None \<Rightarrow> None
                 | Some (found, a2) \<Rightarrow>
                     Some (- 1, stored,
                       ctx1\<lparr>udev_ctx := True, udev_ctx_live := True, mon_live := True,
                            monitor_fd := monitor_socket_fd sys, devs := found,
                            hotplug_cbs := [hotplug_cb], thread_started := True\<rparr>, a2))))"

text \<open>A callback for the samples: it returns its user data and leaves the world alone.\<close>

definition sample_callback :: "int \<Rightarrow> hid_device_info \<Rightarrow> int \<Rightarrow> nat \<Rightarrow> unit \<Rightarrow> int \<times> unit" where
  "sample_callback h info event user_data w = (int user_data, w)"


text \<open>An armed context for the samples: one callback with handle 1, the monitor on
  descriptor 7, one connected device.\<close>

definition sample_record :: hid_device_info where
  "sample_record =
     \<lparr>path = Some (1, ''/dev/hidraw0''), vendor_id = 0x05AC, product_id = 0x8242,
      serial_number = Some (2, []), release_number = 0, manufacturer_string = Some (3, []),
      product_string = Some (4, []), usage_page = 1, usage = 6, interface_number = - 1,
      bus_type = HID_API_BUS_USB\<rparr>"

definition sample_hotplug_callback :: "int \<Rightarrow> nat \<Rightarrow> unit hid_hotplug_callback" where
  "sample_hotplug_callback h user_data =
     \<lparr>cb_handle = h, cb_vendor_id = 0, cb_product_id = 0,
      cb_events = HID_API_HOTPLUG_EVENT_DEVICE_ARRIVED, cb_user_data = user_data,
      cb_callback = sample_callback\<rparr>"

definition sample_armed_context :: "unit hid_hotplug_context" where
  "sample_armed_context =
     \<lparr>udev_ctx = True, udev_ctx_live = True, mon_live = True, monitor_fd = 7,
      thread_started = True, next_handle = 2,
      hotplug_cbs = [sample_hotplug_callback 1 0], devs = [sample_record]\<rparr>"


section \<open>Properties of the descriptor parser\<close>

lemmas parser_eval =
  get_next_hid_usage_def get_next_hid_usage_loop.simps get_hid_item_size_def
  get_hid_report_bytes_def uint_add_def

lemma and3_cases:
  "0 \<le> (k::int) \<Longrightarrow> k AND 3 = 0 \<or> k AND 3 = 1 \<or> k AND 3 = 2 \<or> k AND 3 = 3"
proof -
  assume "0 \<le> k"
  have "0 \<le> k AND 3" by simp
  moreover have "k AND 3 \<le> 3" by (rule AND_upper2) simp
  ultimately show ?thesis by arith
qed

lemma get_hid_item_size_cases:
  "get_hid_item_size rpt pos sz = (ok, data_len, key_size) \<Longrightarrow>
     ok = 1 \<and> 0 \<le> data_len \<and> data_len \<le> 255 \<and> (key_size = 1 \<or> key_size = 3)"
  using and3_cases [of "uint (rpt ! pos)"] uint_lt2p [of "rpt ! uint_add pos 1"]
  by (auto simp: get_hid_item_size_def Let_def split: if_splits)

lemma get_hid_item_size_advance:
  "get_hid_item_size rpt pos sz = (ok, data_len, key_size) \<Longrightarrow>
     1 \<le> nat (data_len + key_size) \<and> nat (data_len + key_size) \<le> 258"
  using get_hid_item_size_cases [of rpt pos sz ok data_len key_size] by auto

lemma item_advance_bounds:
  "1 \<le> item_advance rpt sz pos \<and> item_advance rpt sz pos \<le> 258"
  using get_hid_item_size_advance [of rpt pos sz]
  by (cases "get_hid_item_size rpt pos sz") (simp add: item_advance_def)

lemma uint_add_no_wrap:
  "pos < sz \<Longrightarrow> sz \<le> 2 ^ 32 - 258 \<Longrightarrow> n \<le> 258 \<Longrightarrow> uint_add pos n = pos + n"
  by (simp add: uint_add_def)

text \<open>One unfolding of the loop at a position inside the descriptor.\<close>

lemma loop_step:
  assumes "pos < sz"
    and "get_hid_item_size rpt pos sz = (ok, data_len, key_size)"
  shows "get_next_hid_usage_loop rpt sz initial usage_found pos pg us =
    (let key_cmd = uint (rpt ! pos) AND 0xfc;
         usage_page' = (if key_cmd = 0x4
                        then ucast (get_hid_report_bytes rpt sz (nat data_len) pos)
                        else pg);
         usage' = (if key_cmd = 0x8
                   then ucast (get_hid_report_bytes rpt sz (nat data_len) pos)
                   else us);
         pos' = uint_add pos (nat (data_len + key_size))
     in if key_cmd = 0xa0 \<and> usage_found then Some (0, pos', usage_page', usage')
        else get_next_hid_usage_loop rpt sz initial (usage_flag_step usage_found key_cmd)
               pos' usage_page' usage')"
proof -
  have "ok = 1" using get_hid_item_size_cases [OF assms(2)] by simp
  then show ?thesis
    by (subst get_next_hid_usage_loop.simps)
       (simp add: assms Let_def usage_flag_step_def)
qed

lemma loop_at_end:
  "\<not> pos < sz \<Longrightarrow>
   get_next_hid_usage_loop rpt sz initial usage_found pos pg us =
     Some (if initial \<and> usage_found then 0 else 1, pos, pg, us)"
  by (subst get_next_hid_usage_loop.simps) simp

text \<open>The loop returns for every descriptor short enough for the cursor not to wrap, and
  the cursor never moves backwards.\<close>

lemma loop_terminates:
  assumes "sz \<le> 2 ^ 32 - 258"
  shows "\<exists>ret pos' page' usage'.
           get_next_hid_usage_loop rpt sz initial usage_found pos pg us
             = Some (ret, pos', page', usage') \<and> pos \<le> pos' \<and> (ret = 0 \<or> ret = 1)
           \<and> (pos < sz \<longrightarrow> pos < pos') \<and> (ret = 1 \<longrightarrow> sz \<le> pos')"
  using assms
proof (induction "sz - pos" arbitrary: pos usage_found pg us rule: less_induct)
  case less
  show ?case
  proof (cases "pos < sz")
    case False
    then show ?thesis by (simp add: loop_at_end)
  next
    case True
    obtain ok data_len key_size
      where sz: "get_hid_item_size rpt pos sz = (ok, data_len, key_size)"
      by (cases "get_hid_item_size rpt pos sz") auto
    from get_hid_item_size_advance [OF sz]
    have adv: "1 \<le> nat (data_len + key_size)" "nat (data_len + key_size) \<le> 258"
      by auto
    have eq: "uint_add pos (nat (data_len + key_size)) = pos + nat (data_len + key_size)"
      using True adv less.prems by (simp add: uint_add_no_wrap)
    have dec: "sz - (pos + nat (data_len + key_size)) < sz - pos"
      using True adv by arith
    have IH: "\<exists>ret pos' page' usage'.
        get_next_hid_usage_loop rpt sz initial uf (pos + nat (data_len + key_size)) pg us
          = Some (ret, pos', page', usage') \<and> pos \<le> pos' \<and> (ret = 0 \<or> ret = 1)
          \<and> (pos < sz \<longrightarrow> pos < pos') \<and> (ret = 1 \<longrightarrow> sz \<le> pos')"
      for uf pg us
    proof -
      from less.hyps [OF dec less.prems, of uf pg us]
      obtain ret pos' page' usage' where
        r: "get_next_hid_usage_loop rpt sz initial uf (pos + nat (data_len + key_size)) pg us
              = Some (ret, pos', page', usage')"
        and le: "pos + nat (data_len + key_size) \<le> pos'" and ret: "ret = 0 \<or> ret = 1"
        and fin: "ret = 1 \<longrightarrow> sz \<le> pos'"
        by blast
      from le adv have "pos < pos'" by arith
      with r ret fin show ?thesis by auto
    qed
    have now: "pos < pos + nat (data_len + key_size)" using adv by arith
    show ?thesis
      unfolding loop_step [OF True sz] Let_def eq
      using IH now by simp
  qed
qed

lemma get_next_hid_usage_returns:
  assumes "sz \<le> 2 ^ 32 - 258"
  shows "\<exists>ret pos' page' usage'.
           get_next_hid_usage rpt sz pos pg us = Some (ret, pos', page', usage')
           \<and> pos \<le> pos' \<and> (ret = 0 \<or> ret = 1) \<and> (ret = 0 \<longrightarrow> pos < sz \<and> pos < pos')
           \<and> (ret = 1 \<longrightarrow> sz \<le> pos')"
proof (cases "pos < sz")
  case True
  with loop_terminates [OF assms, of rpt "pos = 0" False pos pg us]
  show ?thesis unfolding get_next_hid_usage_def by auto
next
  case False
  then show ?thesis by (simp add: get_next_hid_usage_def loop_at_end)
qed

text \<open>The walk over the items, and the result of the loop in terms of it.\<close>

lemma hid_items_end: "\<not> pos < sz \<Longrightarrow> hid_items rpt sz pos = Some []"
  by (subst hid_items.simps) simp

lemma hid_items_step:
  "pos < sz \<Longrightarrow> hid_items rpt sz pos =
     Option.bind (hid_items rpt sz (uint_add pos (item_advance rpt sz pos)))
       (\<lambda>rest. Some ((uint (rpt ! pos) AND 0xfc, item_data rpt sz pos) # rest))"
  by (subst hid_items.simps) simp

lemma hid_items_total:
  assumes "sz \<le> 2 ^ 32 - 258"
  shows "\<exists>items. hid_items rpt sz pos = Some items"
  using assms
proof (induction "sz - pos" arbitrary: pos rule: less_induct)
  case less
  show ?case
  proof (cases "pos < sz")
    case False
    then show ?thesis by (simp add: hid_items_end)
  next
    case True
    have eq: "uint_add pos (item_advance rpt sz pos) = pos + item_advance rpt sz pos"
      using True less.prems item_advance_bounds [of rpt sz pos] by (simp add: uint_add_no_wrap)
    have "sz - (pos + item_advance rpt sz pos) < sz - pos"
      using True item_advance_bounds [of rpt sz pos] by arith
    from less.hyps [OF this less.prems]
    obtain rest where "hid_items rpt sz (pos + item_advance rpt sz pos) = Some rest"
      by blast
    then show ?thesis by (simp add: hid_items_step [OF True] eq)
  qed
qed





lemma HID_MAX_fits: "sz \<le> HID_MAX_DESCRIPTOR_SIZE \<Longrightarrow> sz \<le> 2 ^ 32 - 258"
  by (simp add: HID_MAX_DESCRIPTOR_SIZE_def)


subsection \<open>Long item without its length byte\<close>

text \<open>C1. A descriptor whose last item is a long-item prefix (\<open>0xF0\<close>) with no length byte
  should be reported as malformed (return value \<open>-1\<close>).  On the one-byte descriptor
  \<open>F0\<close> the item is sized as a short item of length 1 instead
  (\<^verbatim>\<open>get_hid_item_size\<close> returns 1 with \<^verbatim>\<open>data_len = 0\<close>, \<^verbatim>\<open>key_size = 1\<close>), and
  \<^verbatim>\<open>get_next_hid_usage\<close> returns 1 ("finished") with the cursor at 1.  In fact
  \<^verbatim>\<open>get_hid_item_size\<close> returns 1 on every input, so the malformed return is never taken.\<close>

theorem long_item_missing_length_not_reported:
  "get_hid_item_size [0xF0] 0 1 = (1, 0, 1)
   \<and> get_next_hid_usage [0xF0] 1 0 0 0 = Some (1, 1, 0, 0)
   \<and> fst (get_hid_item_size rpt pos sz) = 1"
proof (intro conjI)
  show "fst (get_hid_item_size rpt pos sz) = 1"
    using get_hid_item_size_cases [of rpt pos sz]
    by (cases "get_hid_item_size rpt pos sz") simp
qed (simp_all add: parser_eval)

subsection \<open>The two reference descriptors\<close>

text \<open>C3. Driving \<^verbatim>\<open>get_next_hid_usage\<close> from \<^verbatim>\<open>pos = 0\<close> until it returns non-zero yields
  exactly the pair (0x0001, 0x0002) on the descriptor \<open>05 01 09 02 A1 01 C0\<close>, and exactly
  the pairs (0x0001, 0x0006), (0x000C, 0x0001), in this order, on the descriptor
  \<open>05 01 09 06 A1 01 05 0C 09 01 A1 02 C0 C0\<close>.\<close>

theorem reference_descriptors_usage_pairs:
  "hid_usage_pairs [0x05, 0x01, 0x09, 0x02, 0xA1, 0x01, 0xC0] 7 0 0 0
     = Some [(0x0001, 0x0002)]
   \<and> hid_usage_pairs
        [0x05, 0x01, 0x09, 0x06, 0xA1, 0x01, 0x05, 0x0C, 0x09, 0x01, 0xA1, 0x02, 0xC0, 0xC0]
        14 0 0 0
     = Some [(0x0001, 0x0006), (0x000C, 0x0001)]"
  by (simp add: hid_usage_pairs.simps parser_eval)

subsection \<open>The end of the descriptor\<close>




subsection \<open>Termination\<close>

text \<open>C10. For every descriptor that fits the descriptor buffer and every starting
  position, \<^verbatim>\<open>get_next_hid_usage\<close> returns, with the cursor not before its start and
  strictly behind it when the start lies inside the descriptor.  At every
  position \<^verbatim>\<open>get_hid_item_size\<close> reports success with \<^verbatim>\<open>key_size\<close> 1 or 3 and a
  non-negative \<^verbatim>\<open>data_len\<close>, so each iteration advances the cursor by at least 1.\<close>

theorem get_next_hid_usage_terminates:
  assumes "sz \<le> HID_MAX_DESCRIPTOR_SIZE"
  shows "(\<exists>ret pos' page' usage'.
            get_next_hid_usage rpt sz pos pg us = Some (ret, pos', page', usage')
            \<and> pos \<le> pos' \<and> (pos < sz \<longrightarrow> pos < pos'))
         \<and> (case get_hid_item_size rpt pos sz of
               (ok, data_len, key_size) \<Rightarrow>
                 ok = 1 \<and> (key_size = 1 \<or> key_size = 3) \<and> 0 \<le> data_len
                 \<and> 1 \<le> data_len + key_size)"
proof
  from loop_terminates [OF HID_MAX_fits [OF assms], of rpt "pos = 0" False pos pg us]
  show "\<exists>ret pos' page' usage'.
            get_next_hid_usage rpt sz pos pg us = Some (ret, pos', page', usage')
            \<and> pos \<le> pos' \<and> (pos < sz \<longrightarrow> pos < pos')"
    unfolding get_next_hid_usage_def by blast
next
  show "case get_hid_item_size rpt pos sz of
          (ok, data_len, key_size) \<Rightarrow>
            ok = 1 \<and> (key_size = 1 \<or> key_size = 3) \<and> 0 \<le> data_len
            \<and> 1 \<le> data_len + key_size"
    using get_hid_item_size_cases [of rpt pos sz]
    by (cases "get_hid_item_size rpt pos sz") auto
qed

theorem get_next_hid_usage_terminates_witness:
  "(7::nat) \<le> HID_MAX_DESCRIPTOR_SIZE
   \<and> get_next_hid_usage [0x05, 0x01, 0x09, 0x02, 0xA1, 0x01, 0xC0] 7 0 0 0
         = Some (0, 6, 1, 2)
   \<and> get_hid_item_size [0x05, 0x01, 0x09, 0x02, 0xA1, 0x01, 0xC0] 0 7 = (1, 1, 1)"
  using get_next_hid_usage_terminates [of 7 "[0x05, 0x01, 0x09, 0x02, 0xA1, 0x01, 0xC0]" 0 0 0]
  by (simp add: HID_MAX_DESCRIPTOR_SIZE_def parser_eval)


section \<open>Properties of the uevent parser\<close>

lemma text_lines_unfold:
  "text_lines s = takeWhile (\<lambda>c. c \<noteq> newline) s #
     (case dropWhile (\<lambda>c. c \<noteq> newline) s of [] \<Rightarrow> [] | c # r \<Rightarrow> text_lines r)"
  by (induction s) (auto split: list.splits)

lemma text_lines_dropWhile_newline:
  "filter (\<lambda>l. l \<noteq> []) (text_lines (dropWhile (\<lambda>c. c = newline) s))
     = filter (\<lambda>l. l \<noteq> []) (text_lines s)"
  by (induction s) auto

lemma tokens_None:
  assumes "strtok_r s = None"
  shows "filter (\<lambda>l. l \<noteq> []) (text_lines s) = []"
proof -
  from assms have e: "dropWhile (\<lambda>c. c = newline) s = []"
    by (simp add: strtok_r_def Let_def split: if_splits)
  have "filter (\<lambda>l. l \<noteq> []) (text_lines (dropWhile (\<lambda>c. c = newline) s)) = []"
    unfolding e by simp
  then show ?thesis by (simp only: text_lines_dropWhile_newline)
qed

lemma tokens_Some:
  assumes "strtok_r s = Some (line, rest)"
  shows "filter (\<lambda>l. l \<noteq> []) (text_lines s) = line # filter (\<lambda>l. l \<noteq> []) (text_lines rest)"
proof -
  define s' where "s' = dropWhile (\<lambda>c. c = newline) s"
  define d where "d = dropWhile (\<lambda>c. c \<noteq> newline) s'"
  from assms have ne: "s' \<noteq> []"
    and l: "line = takeWhile (\<lambda>c. c \<noteq> newline) s'"
    and r: "rest = drop 1 d"
    by (simp_all add: strtok_r_def Let_def s'_def d_def split: if_splits)
  from ne have "hd s' \<noteq> newline"
    unfolding s'_def using hd_dropWhile [of "\<lambda>c. c = newline" s] by blast
  with ne l have lne: "line \<noteq> []" by (cases s') simp_all
  have tl: "text_lines s' = line # (case d of [] \<Rightarrow> [] | c # r \<Rightarrow> text_lines r)"
    unfolding l d_def by (rule text_lines_unfold)
  have rest: "filter (\<lambda>l. l \<noteq> []) (case d of [] \<Rightarrow> [] | c # r \<Rightarrow> text_lines r)
                = filter (\<lambda>l. l \<noteq> []) (text_lines rest)"
    unfolding r by (cases d) simp_all
  have "filter (\<lambda>l. l \<noteq> []) (text_lines s) = filter (\<lambda>l. l \<noteq> []) (text_lines s')"
    unfolding s'_def by (simp only: text_lines_dropWhile_newline)
  also have "\<dots> = line # filter (\<lambda>l. l \<noteq> []) (text_lines rest)"
    unfolding tl using lne rest by simp
  finally show ?thesis .
qed

lemma parse_uevent_loop_foldl:
  "parse_uevent_loop st s = foldl parse_uevent_line st (filter (\<lambda>l. l \<noteq> []) (text_lines s))"
proof (induction st s rule: parse_uevent_loop.induct)
  case (1 st s)
  show ?case
  proof (cases "strtok_r s")
    case None
    then show ?thesis by (subst parse_uevent_loop.simps) (simp add: tokens_None)
  next
    case (Some a)
    then obtain line rest where a: "strtok_r s = Some (line, rest)" by (cases a) auto
    from "1" [OF a refl] show ?thesis
      by (subst parse_uevent_loop.simps) (simp add: a tokens_Some [OF a])
  qed
qed

lemma split_key_value_Some:
  assumes "split_key_value l = Some (k, v)"
  shows "l = k @ CHR ''='' # v \<and> CHR ''='' \<notin> set k"
proof -
  from assms have m: "CHR ''='' \<in> set l"
    and k: "k = takeWhile (\<lambda>c. c \<noteq> CHR ''='') l"
    and v: "v = drop 1 (dropWhile (\<lambda>c. c \<noteq> CHR ''='') l)"
    by (simp_all add: split_key_value_def split: if_splits)
  from m have "dropWhile (\<lambda>c. c \<noteq> CHR ''='') l \<noteq> []" by (simp add: dropWhile_eq_Nil_conv)
  moreover have "hd (dropWhile (\<lambda>c. c \<noteq> CHR ''='') l) = CHR ''=''"
    using calculation hd_dropWhile [of "\<lambda>c. c \<noteq> CHR ''=''" l] by blast
  ultimately have "dropWhile (\<lambda>c. c \<noteq> CHR ''='') l = CHR ''='' # v"
    unfolding v by (cases "dropWhile (\<lambda>c. c \<noteq> CHR ''='') l") simp_all
  then have "l = k @ CHR ''='' # v"
    unfolding k using takeWhile_dropWhile_id [of "\<lambda>c. c \<noteq> CHR ''=''" l] by simp
  moreover have "CHR ''='' \<notin> set k"
    unfolding k using set_takeWhileD by fastforce
  ultimately show ?thesis by simp
qed

lemma split_key_value_append:
  assumes "CHR ''='' \<notin> set k"
  shows "split_key_value (k @ CHR ''='' # v) = Some (k, v)"
proof -
  have "takeWhile (\<lambda>c. c \<noteq> CHR ''='') (k @ CHR ''='' # v) = k"
    using assms by (induction k) auto
  moreover have "dropWhile (\<lambda>c. c \<noteq> CHR ''='') (k @ CHR ''='' # v) = CHR ''='' # v"
    using assms by (induction k) auto
  ultimately show ?thesis by (simp add: split_key_value_def)
qed

lemma is_key_line_iff:
  assumes "CHR ''='' \<notin> set key"
  shows "is_key_line key l = (split_key_value l = Some (key, drop (length key + 1) l))"
proof
  assume "is_key_line key l"
  then have t: "take (length key + 1) l = key @ ''=''" by (simp add: is_key_line_def)
  have "l = take (length key + 1) l @ drop (length key + 1) l" by simp
  then have "l = key @ CHR ''='' # drop (length key + 1) l" unfolding t by simp
  then show "split_key_value l = Some (key, drop (length key + 1) l)"
    using split_key_value_append [OF assms, of "drop (length key + 1) l"] by simp
next
  assume "split_key_value l = Some (key, drop (length key + 1) l)"
  from split_key_value_Some [OF this]
  have "l = key @ CHR ''='' # drop (length key + 1) l" by simp
  then have "take (length key + 1) l = take (length key + 1) (key @ CHR ''='' # drop (length key + 1) l)"
    by simp
  then show "is_key_line key l" by (simp add: is_key_line_def)
qed

lemma split_key_value_key:
  assumes "CHR ''='' \<notin> set key"
  shows "(\<exists>v. split_key_value l = Some (key, v)) = is_key_line key l"
proof
  assume "\<exists>v. split_key_value l = Some (key, v)"
  then obtain v where v: "split_key_value l = Some (key, v)" by blast
  from split_key_value_Some [OF v] have "l = key @ CHR ''='' # v" by simp
  then have "take (length key + 1) l = key @ ''=''" by simp
  then show "is_key_line key l" by (simp add: is_key_line_def)
next
  assume "is_key_line key l"
  then show "\<exists>v. split_key_value l = Some (key, v)"
    using is_key_line_iff [OF assms] by blast
qed

lemma key_notin [simp]:
  "CHR ''='' \<notin> set ''HID_ID''" "CHR ''='' \<notin> set ''HID_NAME''" "CHR ''='' \<notin> set ''HID_UNIQ''"
  by simp_all

lemma is_key_line_distinct:
  "is_key_line k1 l \<Longrightarrow> is_key_line k2 l \<Longrightarrow> CHR ''='' \<notin> set k1 \<Longrightarrow> CHR ''='' \<notin> set k2
     \<Longrightarrow> k1 = k2"
  using split_key_value_key [of k1 l] split_key_value_key [of k2 l] by auto

lemma parse_uevent_line_found_name:
  "found_name (parse_uevent_line st l) = (found_name st \<or> is_key_line ''HID_NAME'' l)"
proof (cases "split_key_value l")
  case None
  then show ?thesis
    using split_key_value_key [of "''HID_NAME''" l] by (simp add: parse_uevent_line_def)
next
  case (Some a)
  then obtain k v where kv: "split_key_value l = Some (k, v)" by (cases a) auto
  have "is_key_line ''HID_NAME'' l = (k = ''HID_NAME'')"
    using split_key_value_key [of "''HID_NAME''" l] kv by auto
  then show ?thesis
    by (auto simp: parse_uevent_line_def kv split: prod.splits)
qed

lemma parse_uevent_line_found_serial:
  "found_serial (parse_uevent_line st l) = (found_serial st \<or> is_key_line ''HID_UNIQ'' l)"
proof (cases "split_key_value l")
  case None
  then show ?thesis
    using split_key_value_key [of "''HID_UNIQ''" l] by (simp add: parse_uevent_line_def)
next
  case (Some a)
  then obtain k v where kv: "split_key_value l = Some (k, v)" by (cases a) auto
  have "is_key_line ''HID_UNIQ'' l = (k = ''HID_UNIQ'')"
    using split_key_value_key [of "''HID_UNIQ''" l] kv by auto
  then show ?thesis
    by (auto simp: parse_uevent_line_def kv split: prod.splits)
qed

lemma parse_uevent_line_found_id:
  "found_id (parse_uevent_line st l) = (found_id st \<or> is_hid_id_line l)"
proof (cases "split_key_value l")
  case None
  then show ?thesis
    using split_key_value_key [of "''HID_ID''" l]
    by (simp add: parse_uevent_line_def is_hid_id_line_def)
next
  case (Some a)
  then obtain k v where kv: "split_key_value l = Some (k, v)" by (cases a) auto
  show ?thesis
  proof (cases "k = ''HID_ID''")
    case True
    have seven: "length ''HID_ID'' + 1 = 7" by simp
    from kv True have "is_key_line ''HID_ID'' l"
      using split_key_value_key [of "''HID_ID''" l] by auto
    moreover from this kv True have "v = drop 7 l"
      using is_key_line_iff [of "''HID_ID''" l] unfolding seven by simp
    ultimately have "is_key_line ''HID_ID'' l" and "v = drop 7 l" by blast+
    then show ?thesis
      by (auto simp: parse_uevent_line_def kv True is_hid_id_line_def split: prod.splits)
  next
    case False
    then have "\<not> is_key_line ''HID_ID'' l"
      using split_key_value_key [of "''HID_ID''" l] kv by auto
    with False show ?thesis
      by (auto simp: parse_uevent_line_def kv is_hid_id_line_def split: prod.splits)
  qed
qed

lemma foldl_found:
  "found_id (foldl parse_uevent_line st ls) = (found_id st \<or> list_ex is_hid_id_line ls)"
  "found_name (foldl parse_uevent_line st ls)
     = (found_name st \<or> list_ex (is_key_line ''HID_NAME'') ls)"
  "found_serial (foldl parse_uevent_line st ls)
     = (found_serial st \<or> list_ex (is_key_line ''HID_UNIQ'') ls)"
  by (induction ls arbitrary: st)
     (auto simp: parse_uevent_line_found_id parse_uevent_line_found_name
        parse_uevent_line_found_serial)

lemma list_ex_nonempty_lines:
  "\<not> P [] \<Longrightarrow> list_ex P (filter (\<lambda>l. l \<noteq> []) ls) = list_ex P ls"
  by (induction ls) auto

lemma has_all_keys_nonempty_lines:
  "has_all_keys (filter (\<lambda>l. l \<noteq> []) ls) = has_all_keys ls"
  by (simp add: has_all_keys_def list_ex_nonempty_lines is_hid_id_line_def is_key_line_def)

lemma parse_uevent_info_iff:
  "(fst (parse_uevent_info uevent) \<noteq> 0) = has_all_keys (text_lines (take 1023 uevent))"
  "fst (parse_uevent_info uevent) = 0 \<or> fst (parse_uevent_info uevent) = 1"
proof -
  have "(fst (parse_uevent_info uevent) \<noteq> 0)
          = has_all_keys (filter (\<lambda>l. l \<noteq> []) (text_lines (take 1023 uevent)))"
    by (simp add: parse_uevent_info_def Let_def parse_uevent_loop_foldl foldl_found
          has_all_keys_def uevent_vars_init_def)
  then show "(fst (parse_uevent_info uevent) \<noteq> 0) = has_all_keys (text_lines (take 1023 uevent))"
    by (simp only: has_all_keys_nonempty_lines)
  show "fst (parse_uevent_info uevent) = 0 \<or> fst (parse_uevent_info uevent) = 1"
    by (simp add: parse_uevent_info_def Let_def)
qed

lemmas uevent_eval =
  parse_uevent_info_def parse_uevent_loop.simps parse_uevent_line_def split_key_value_def
  strtok_r_def newline_def sscanf_x_hx_hx_def scan_hex_def isspace_def isxdigit_def
  hex_digit_value_def strtoul_result_def Let_def uevent_vars_init_def store_ids_def

lemma text_lines_no_newline: "newline \<notin> set xs \<Longrightarrow> text_lines xs = [xs]"
  by (induction xs) auto

lemma text_lines_append_newline:
  "newline \<notin> set xs \<Longrightarrow> text_lines (xs @ newline # ys) = xs # text_lines ys"
  by (induction xs) auto

lemma is_key_line_hd: "is_key_line key l \<Longrightarrow> l \<noteq> [] \<and> hd l = hd (key @ ''='')"
proof -
  assume a: "is_key_line key l"
  then have t: "take (length key + 1) l = key @ ''=''" by (simp add: is_key_line_def)
  then have "l \<noteq> []" by auto
  moreover from this have "hd l = hd (take (length key + 1) l)" by (cases l) simp_all
  ultimately show ?thesis unfolding t by simp
qed

lemma filler_not_key_line:
  "\<not> is_key_line ''HID_ID'' (replicate 1023 CHR ''x'')"
  "\<not> is_key_line ''HID_NAME'' (replicate 1023 CHR ''x'')"
  "\<not> is_key_line ''HID_UNIQ'' (replicate 1023 CHR ''x'')"
  using is_key_line_hd [of "''HID_ID''" "replicate 1023 CHR ''x''"]
    is_key_line_hd [of "''HID_NAME''" "replicate 1023 CHR ''x''"]
    is_key_line_hd [of "''HID_UNIQ''" "replicate 1023 CHR ''x''"]
  by (auto simp: hd_replicate)

subsection \<open>When the parse succeeds\<close>

text \<open>C6, as the code has it.  \<^verbatim>\<open>parse_uevent_info\<close> returns non-zero if and only if the
  first 1023 characters of the text (the part copied into \<^verbatim>\<open>tmp\<close>) hold a line
  \<^verbatim>\<open>HID_ID=<value>\<close> whose value converts all three fields of \<^verbatim>\<open>%x:%hx:%hx\<close>, a line
  \<^verbatim>\<open>HID_NAME=<value>\<close> and a line \<^verbatim>\<open>HID_UNIQ=<value>\<close>.  The text
  \<^verbatim>\<open>HID_ID=0003:000005AC:00008242\<close>, \<^verbatim>\<open>HID_NAME=Keyboard\<close>, \<^verbatim>\<open>HID_UNIQ=abc\<close> parses to bus 3,
  vendor 0x05AC, product 0x8242, name "Keyboard", serial "abc"; leaving out any one of
  the three lines makes the parse fail.\<close>

theorem parse_uevent_info_success:
  "(fst (parse_uevent_info uevent) \<noteq> 0) = has_all_keys (text_lines (take 1023 uevent))
   \<and> parse_uevent_info
        (''HID_ID=0003:000005AC:00008242'' @ [newline] @ ''HID_NAME=Keyboard'' @ [newline]
         @ ''HID_UNIQ=abc'' @ [newline])
       = (1, \<lparr>ue_bus_type = Some 3, ue_vendor_id = Some 0x05AC, ue_product_id = Some 0x8242,
              serial_number_utf8 = Some ''abc'', product_name_utf8 = Some ''Keyboard'',
              found_id = True, found_serial = True, found_name = True\<rparr>)
   \<and> fst (parse_uevent_info
        (''HID_NAME=Keyboard'' @ [newline] @ ''HID_UNIQ=abc'' @ [newline])) = 0
   \<and> fst (parse_uevent_info
        (''HID_ID=0003:000005AC:00008242'' @ [newline] @ ''HID_UNIQ=abc'' @ [newline])) = 0
   \<and> fst (parse_uevent_info
        (''HID_ID=0003:000005AC:00008242'' @ [newline] @ ''HID_NAME=Keyboard'' @ [newline])) = 0"
proof (intro conjI)
  show "(fst (parse_uevent_info uevent) \<noteq> 0) = has_all_keys (text_lines (take 1023 uevent))"
    by (rule parse_uevent_info_iff)
qed (simp_all add: uevent_eval)

text \<open>C6 for every text fails: a text that holds the three lines behind 1023 other
  characters contains them all, and the parse fails, since the lines are cut off.\<close>

theorem parse_uevent_info_long_text_counterexample:
  "has_all_keys (text_lines
      (replicate 1023 CHR ''x'' @ [newline] @ ''HID_ID=0003:000005AC:00008242'' @ [newline]
       @ ''HID_NAME=Keyboard'' @ [newline] @ ''HID_UNIQ=abc'' @ [newline]))
   \<and> fst (parse_uevent_info
      (replicate 1023 CHR ''x'' @ [newline] @ ''HID_ID=0003:000005AC:00008242'' @ [newline]
       @ ''HID_NAME=Keyboard'' @ [newline] @ ''HID_UNIQ=abc'' @ [newline])) = 0"
proof
  have nl: "newline \<notin> set (replicate 1023 CHR ''x'')" by (simp add: newline_def)
  show "has_all_keys (text_lines
      (replicate 1023 CHR ''x'' @ [newline] @ ''HID_ID=0003:000005AC:00008242'' @ [newline]
       @ ''HID_NAME=Keyboard'' @ [newline] @ ''HID_UNIQ=abc'' @ [newline]))"
    unfolding append_Cons append_Nil text_lines_append_newline [OF nl]
    by (simp add: has_all_keys_def is_hid_id_line_def is_key_line_def newline_def
          sscanf_x_hx_hx_def scan_hex_def isspace_def isxdigit_def
          hex_digit_value_def strtoul_result_def Let_def)
next
  have nl: "newline \<notin> set (replicate 1023 CHR ''x'')" by (simp add: newline_def)
  have "\<not> has_all_keys (text_lines (take 1023
      (replicate 1023 CHR ''x'' @ [newline] @ ''HID_ID=0003:000005AC:00008242'' @ [newline]
       @ ''HID_NAME=Keyboard'' @ [newline] @ ''HID_UNIQ=abc'' @ [newline])))"
    by (simp add: text_lines_no_newline [OF nl] has_all_keys_def is_hid_id_line_def
          filler_not_key_line)
  then show "fst (parse_uevent_info
      (replicate 1023 CHR ''x'' @ [newline] @ ''HID_ID=0003:000005AC:00008242'' @ [newline]
       @ ''HID_NAME=Keyboard'' @ [newline] @ ''HID_UNIQ=abc'' @ [newline])) = 0"
    using parse_uevent_info_iff(1) by blast
qed


section \<open>Properties of the device information records\<close>

subsection \<open>Allocation without failures\<close>

lemma malloc_ok:
  "outcomes a = [] \<Longrightarrow>
     malloc a = (Some (next_addr a), \<lparr>next_addr = Suc (next_addr a), outcomes = []\<rparr>)"
  by (simp add: malloc_def)

lemma strdup_ok:
  "outcomes a = [] \<Longrightarrow>
     strdup s a = (Some (next_addr a, s), \<lparr>next_addr = Suc (next_addr a), outcomes = []\<rparr>)"
  by (simp add: strdup_def malloc_ok)

lemma wcsdup_ok:
  "outcomes a = [] \<Longrightarrow>
     wcsdup w a = (Some (next_addr a, w), \<lparr>next_addr = Suc (next_addr a), outcomes = []\<rparr>)"
  by (simp add: wcsdup_def malloc_ok)

lemma allocated_addr_list:
  "allocated p content a a' \<Longrightarrow>
     set (addr_list p) \<subseteq> {next_addr a ..< next_addr a'} \<and> distinct (addr_list p)
     \<and> next_addr a \<le> next_addr a'"
  by (auto simp: allocated_def addr_list_def split: option.splits)

lemma strdup_opt_allocated:
  "outcomes a = [] \<Longrightarrow>
     (case dev_path of None \<Rightarrow> (None, a) | Some p \<Rightarrow> strdup p a) = (q, a')
     \<Longrightarrow> allocated q dev_path a a'"
  by (cases dev_path) (auto simp: strdup_ok allocated_def ptr_value_def)

lemma copy_wstring_allocated:
  "outcomes a = [] \<Longrightarrow> copy_wstring p a = (q, a') \<Longrightarrow> allocated q (ptr_value p) a a'"
  by (cases p) (auto simp: copy_wstring_def wcsdup_ok allocated_def ptr_value_def)

lemma wcsdup_allocated:
  "outcomes a = [] \<Longrightarrow> wcsdup w a = (q, a') \<Longrightarrow> allocated q (Some w) a a'"
  by (auto simp: wcsdup_ok allocated_def ptr_value_def)

lemma utf8_to_wchar_t_allocated:
  "outcomes a = [] \<Longrightarrow> utf8_to_wchar_t mbstowcs utf8 a = (q, a')
     \<Longrightarrow> allocated q (decoded mbstowcs utf8) a a'"
  by (auto simp: utf8_to_wchar_t_def decoded_def wcsdup_ok malloc_ok allocated_def
        ptr_value_def split: option.splits)

lemma two_blocks:
  assumes "distinct xs" "set xs \<subseteq> {l ..< m}" "distinct ys" "set ys \<subseteq> {m ..< (n::nat)}"
    "l \<le> m" "m \<le> n"
  shows "distinct (xs @ ys) \<and> set (xs @ ys) \<subseteq> {l ..< n}"
proof -
  have "set xs \<inter> set ys = {}" using assms(2,4) by fastforce
  moreover have "set xs \<subseteq> {l ..< n}" using assms(2,6) by fastforce
  moreover have "set ys \<subseteq> {l ..< n}" using assms(4,5) by fastforce
  ultimately show ?thesis using assms(1,3) by simp
qed

lemma four_allocations:
  assumes "allocated p1 c1 a a1" "allocated p2 c2 a1 a2" "allocated p3 c3 a2 a3"
    "allocated p4 c4 a3 a4"
  shows "distinct (addr_list p1 @ addr_list p2 @ addr_list p3 @ addr_list p4)
     \<and> set (addr_list p1 @ addr_list p2 @ addr_list p3 @ addr_list p4)
         \<subseteq> {next_addr a ..< next_addr a4}
     \<and> next_addr a \<le> next_addr a4 \<and> outcomes a4 = []"
proof -
  note f1 = allocated_addr_list [OF assms(1)]
  note f2 = allocated_addr_list [OF assms(2)]
  note f3 = allocated_addr_list [OF assms(3)]
  note f4 = allocated_addr_list [OF assms(4)]
  have b34: "distinct (addr_list p3 @ addr_list p4)
      \<and> set (addr_list p3 @ addr_list p4) \<subseteq> {next_addr a2 ..< next_addr a4}"
    using f3 f4 by (intro two_blocks) blast+
  have le24: "next_addr a2 \<le> next_addr a4" using f3 f4 by linarith
  have b234: "distinct (addr_list p2 @ addr_list p3 @ addr_list p4)
      \<and> set (addr_list p2 @ addr_list p3 @ addr_list p4) \<subseteq> {next_addr a1 ..< next_addr a4}"
    using f2 b34 le24 by (intro two_blocks) blast+
  have le14: "next_addr a1 \<le> next_addr a4" using f2 le24 by linarith
  have b1234: "distinct (addr_list p1 @ addr_list p2 @ addr_list p3 @ addr_list p4)
      \<and> set (addr_list p1 @ addr_list p2 @ addr_list p3 @ addr_list p4)
          \<subseteq> {next_addr a ..< next_addr a4}"
    using f1 b234 le14 by (intro two_blocks) blast+
  moreover have "next_addr a \<le> next_addr a4" using f1 le14 by linarith
  moreover have "outcomes a4 = []" using assms(4) by (simp add: allocated_def)
  ultimately show ?thesis by blast
qed

lemma new_usage_record_ok:
  assumes "outcomes a = []"
    and "new_usage_record dev_path vid pid prev page us a = (new, a')"
  shows "outcomes a' = [] \<and> next_addr a \<le> next_addr a'
     \<and> set (string_addrs new) \<subseteq> {next_addr a ..< next_addr a'}
     \<and> distinct (string_addrs new)
     \<and> usage_pair new = (page, us)
     \<and> device_fields new =
         (dev_path, vid, pid, ptr_value (serial_number prev), release_number prev,
          ptr_value (manufacturer_string prev), ptr_value (product_string prev),
          interface_number prev, bus_type prev)"
proof -
  obtain p1 a1 where 1: "(case dev_path of None \<Rightarrow> (None, a) | Some p \<Rightarrow> strdup p a) = (p1, a1)"
    by (cases "(case dev_path of None \<Rightarrow> (None, a) | Some p \<Rightarrow> strdup p a)") auto
  obtain p2 a2 where 2: "copy_wstring (serial_number prev) a1 = (p2, a2)"
    by (cases "copy_wstring (serial_number prev) a1") auto
  obtain p3 a3 where 3: "copy_wstring (manufacturer_string prev) a2 = (p3, a3)"
    by (cases "copy_wstring (manufacturer_string prev) a2") auto
  obtain p4 a4 where 4: "copy_wstring (product_string prev) a3 = (p4, a4)"
    by (cases "copy_wstring (product_string prev) a3") auto
  have al1: "allocated p1 dev_path a a1" using strdup_opt_allocated [OF assms(1) 1] .
  then have o1: "outcomes a1 = []" by (simp add: allocated_def)
  have al2: "allocated p2 (ptr_value (serial_number prev)) a1 a2"
    using copy_wstring_allocated [OF o1 2] .
  then have o2: "outcomes a2 = []" by (simp add: allocated_def)
  have al3: "allocated p3 (ptr_value (manufacturer_string prev)) a2 a3"
    using copy_wstring_allocated [OF o2 3] .
  then have o3: "outcomes a3 = []" by (simp add: allocated_def)
  have al4: "allocated p4 (ptr_value (product_string prev)) a3 a4"
    using copy_wstring_allocated [OF o3 4] .
  from assms(2) have new: "new = \<lparr>path = p1, vendor_id = vid, product_id = pid,
      serial_number = p2, release_number = release_number prev,
      manufacturer_string = p3, product_string = p4, usage_page = page, usage = us,
      interface_number = interface_number prev, bus_type = bus_type prev\<rparr>"
    and a': "a' = a4"
    by (simp_all add: new_usage_record_def 1 2 3 4)
  from four_allocations [OF al1 al2 al3 al4] al1 al2 al3 al4
  show ?thesis
    unfolding new a' by (simp add: string_addrs_def usage_pair_def device_fields_def allocated_def)
qed

lemma additional_usage_records_ok:
  assumes "sz \<le> 2 ^ 32 - 258" and "outcomes a = []"
    and "ptr_value (path prev) = dev_path" and "vendor_id prev = vid"
    and "product_id prev = pid"
  shows "\<exists>recs a' pairs.
     additional_usage_records rpt sz dev_path vid pid pos page us prev a = Some (recs, a')
     \<and> hid_usage_pairs rpt sz pos page us = Some pairs
     \<and> map usage_pair recs = pairs
     \<and> (\<forall>r \<in> set recs. device_fields r = device_fields prev)
     \<and> outcomes a' = [] \<and> next_addr a \<le> next_addr a'
     \<and> distinct (concat (map string_addrs recs))
     \<and> set (concat (map string_addrs recs)) \<subseteq> {next_addr a ..< next_addr a'}"
  using assms
proof (induction "sz - pos" arbitrary: pos page us prev a rule: less_induct)
  case less
  from get_next_hid_usage_returns [OF less.prems(1), of rpt pos page us]
  obtain ret pos' page' us' where
    g: "get_next_hid_usage rpt sz pos page us = Some (ret, pos', page', us')"
    and ret: "ret = 0 \<or> ret = 1"
    and adv: "ret = 0 \<longrightarrow> pos < sz \<and> pos < pos'"
    by blast
  show ?case
  proof (cases "ret = 0")
    case False
    then show ?thesis
      by (subst additional_usage_records.simps, subst hid_usage_pairs.simps)
         (simp add: g less.prems(2))
  next
    case True
    define a1 where "a1 = \<lparr>next_addr = Suc (next_addr a), outcomes = []\<rparr>"
    have m: "malloc a = (Some (next_addr a), a1)"
      unfolding a1_def using less.prems(2) by (rule malloc_ok)
    have o1: "outcomes a1 = []" by (simp add: a1_def)
    obtain new a2 where n: "new_usage_record dev_path vid pid prev page' us' a1 = (new, a2)"
      by (cases "new_usage_record dev_path vid pid prev page' us' a1") auto
    note nf = new_usage_record_ok [OF o1 n]
    have fields: "device_fields new = device_fields prev"
      using nf less.prems(3,4,5) by (simp add: device_fields_def)
    then have new_id: "ptr_value (path new) = dev_path" "vendor_id new = vid"
      "product_id new = pid"
      using less.prems(3,4,5) by (simp_all add: device_fields_def)
    have o2: "outcomes a2 = []" using nf by simp
    have dec: "sz - pos' < sz - pos" using True adv by arith
    from less.hyps [OF dec less.prems(1) o2 new_id, of page' us']
    obtain rest a3 pairs where
      r: "additional_usage_records rpt sz dev_path vid pid pos' page' us' new a2 = Some (rest, a3)"
      and p: "hid_usage_pairs rpt sz pos' page' us' = Some pairs"
      and mp: "map usage_pair rest = pairs"
      and fl: "\<forall>r \<in> set rest. device_fields r = device_fields new"
      and o3: "outcomes a3 = []" and le: "next_addr a2 \<le> next_addr a3"
      and d: "distinct (concat (map string_addrs rest))"
      and s: "set (concat (map string_addrs rest)) \<subseteq> {next_addr a2 ..< next_addr a3}"
      by blast
    have res: "additional_usage_records rpt sz dev_path vid pid pos page us prev a
        = Some (new # rest, a3)"
      by (subst additional_usage_records.simps) (simp add: g True m n r)
    have prs: "hid_usage_pairs rpt sz pos page us = Some ((page', us') # pairs)"
      by (subst hid_usage_pairs.simps) (simp add: g True p)
    have le12: "next_addr a1 \<le> next_addr a2" using nf by simp
    have blocks: "distinct (string_addrs new @ concat (map string_addrs rest))
        \<and> set (string_addrs new @ concat (map string_addrs rest))
            \<subseteq> {next_addr a1 ..< next_addr a3}"
      using nf d s le12 le by (intro two_blocks) blast+
    have a01: "next_addr a \<le> next_addr a1" by (simp add: a1_def)
    have sub: "set (concat (map string_addrs (new # rest))) \<subseteq> {next_addr a ..< next_addr a3}"
      using blocks a01 by fastforce
    have dist: "distinct (concat (map string_addrs (new # rest)))"
      using blocks by simp
    have le03: "next_addr a \<le> next_addr a3" using a01 le12 le by linarith
    have up: "map usage_pair (new # rest) = (page', us') # pairs"
      using nf mp by simp
    have all: "\<forall>r \<in> set (new # rest). device_fields r = device_fields prev"
      using fl fields by simp
    show ?thesis
      by (rule exI [of _ "new # rest"], rule exI [of _ a3],
          rule exI [of _ "(page', us') # pairs"])
         (intro conjI res prs up all o3 le03 dist sub)
  qed
qed

lemma hid_usage_pairs_at_end:
  "sz \<le> pos \<Longrightarrow> hid_usage_pairs rpt sz pos page us = Some []"
  by (subst hid_usage_pairs.simps) (simp add: get_next_hid_usage_def loop_at_end)

lemma fill_bus_fields_ok:
  assumes "outcomes a = []"
    and "fill_bus_fields mb raw_dev bus pn cur a = (cur', a')"
    and "bus = BUS_BLUETOOTH \<or> bus = BUS_I2C \<or> bus = BUS_USB \<or> bus = BUS_SPI"
  shows "outcomes a' = [] \<and> next_addr a \<le> next_addr a'
     \<and> path cur' = path cur \<and> serial_number cur' = serial_number cur
     \<and> vendor_id cur' = vendor_id cur \<and> product_id cur' = product_id cur
     \<and> usage_page cur' = usage_page cur \<and> usage cur' = usage cur
     \<and> distinct (addr_list (manufacturer_string cur') @ addr_list (product_string cur'))
     \<and> set (addr_list (manufacturer_string cur') @ addr_list (product_string cur'))
         \<subseteq> {next_addr a ..< next_addr a'}"
proof -
  have two: "outcomes a' = [] \<and> next_addr a \<le> next_addr a'
     \<and> distinct (addr_list m @ addr_list p)
     \<and> set (addr_list m @ addr_list p) \<subseteq> {next_addr a ..< next_addr a'}"
    if "allocated m c1 a a1" "allocated p c2 a1 a'" for m p c1 c2 a1
  proof -
    note f1 = allocated_addr_list [OF that(1)]
    note f2 = allocated_addr_list [OF that(2)]
    have "distinct (addr_list m @ addr_list p)
      \<and> set (addr_list m @ addr_list p) \<subseteq> {next_addr a ..< next_addr a'}"
      using f1 f2 by (intro two_blocks) blast+
    moreover have "next_addr a \<le> next_addr a'" using f1 f2 by linarith
    moreover have "outcomes a' = []" using that(2) by (simp add: allocated_def)
    ultimately show ?thesis by blast
  qed
  show ?thesis
  proof (cases "bus = BUS_USB")
    case True
    show ?thesis
    proof (cases "usb_device_parent raw_dev")
      case None
      obtain m a1 where 1: "wcsdup [] a = (m, a1)" by (cases "wcsdup [] a") auto
      obtain p a2 where 2: "utf8_to_wchar_t mb pn a1 = (p, a2)"
        by (cases "utf8_to_wchar_t mb pn a1") auto
      have al1: "allocated m (Some []) a a1" using wcsdup_allocated [OF assms(1) 1] .
      then have "outcomes a1 = []" by (simp add: allocated_def)
      from utf8_to_wchar_t_allocated [OF this 2]
      have al2: "allocated p (decoded mb pn) a1 a2" .
      from assms(2) have "cur' = cur\<lparr>manufacturer_string := m, product_string := p\<rparr>"
        and "a' = a2"
        by (simp_all add: fill_bus_fields_def True None 1 2)
      with two [OF al1] al2 show ?thesis by simp
    next
      case (Some usb_dev)
      obtain m a1 where 1: "utf8_to_wchar_t mb (manufacturer usb_dev) a = (m, a1)"
        by (cases "utf8_to_wchar_t mb (manufacturer usb_dev) a") auto
      obtain p a2 where 2: "utf8_to_wchar_t mb (product usb_dev) a1 = (p, a2)"
        by (cases "utf8_to_wchar_t mb (product usb_dev) a1") auto
      have al1: "allocated m (decoded mb (manufacturer usb_dev)) a a1"
        using utf8_to_wchar_t_allocated [OF assms(1) 1] .
      then have "outcomes a1 = []" by (simp add: allocated_def)
      from utf8_to_wchar_t_allocated [OF this 2]
      have al2: "allocated p (decoded mb (product usb_dev)) a1 a2" .
      from assms(2) have "manufacturer_string cur' = m" "product_string cur' = p"
        "path cur' = path cur" "serial_number cur' = serial_number cur"
        "vendor_id cur' = vendor_id cur" "product_id cur' = product_id cur"
        "usage_page cur' = usage_page cur" "usage cur' = usage cur"
        and "a' = a2"
        by (auto simp add: fill_bus_fields_def True Some 1 2)
      with two [OF al1] al2 show ?thesis by simp
    qed
  next
    case False
    with assms(3) have other: "bus = BUS_BLUETOOTH \<or> bus = BUS_I2C \<or> bus = BUS_SPI" by blast
    obtain m a1 where 1: "wcsdup [] a = (m, a1)" by (cases "wcsdup [] a") auto
    obtain p a2 where 2: "utf8_to_wchar_t mb pn a1 = (p, a2)"
      by (cases "utf8_to_wchar_t mb pn a1") auto
    have al1: "allocated m (Some []) a a1" using wcsdup_allocated [OF assms(1) 1] .
    then have "outcomes a1 = []" by (simp add: allocated_def)
    from utf8_to_wchar_t_allocated [OF this 2]
    have al2: "allocated p (decoded mb pn) a1 a2" .
    from assms(2) False other have "manufacturer_string cur' = m" "product_string cur' = p"
        "path cur' = path cur" "serial_number cur' = serial_number cur"
        "vendor_id cur' = vendor_id cur" "product_id cur' = product_id cur"
        "usage_page cur' = usage_page cur" "usage cur' = usage cur"
      and "a' = a2"
      by (auto simp add: fill_bus_fields_def 1 2)
    with two [OF al1] al2 show ?thesis by simp
  qed
qed

lemma descriptor_size_bound:
  "get_hid_report_descriptor_from_sysfs raw_dev = Some (rpt, sz) \<Longrightarrow> sz \<le> 2 ^ 32 - 258"
  by (auto simp: get_hid_report_descriptor_from_sysfs_def Let_def HID_MAX_DESCRIPTOR_SIZE_def
        split: option.splits)

lemma usage_records_ok:
  assumes "outcomes a = []"
    and "ptr_value (path cur) = devnode raw_dev" and "vendor_id cur = vid"
    and "product_id cur = pid" and "usage_pair cur = (0, 0)"
    and "distinct (string_addrs cur)"
    and "set (string_addrs cur) \<subseteq> {n0 ..< next_addr a}" and "n0 \<le> next_addr a"
  shows "\<exists>recs a' pairs.
     usage_records raw_dev vid pid cur a = Some (recs, a')
     \<and> node_usage_pairs raw_dev = Some pairs
     \<and> map usage_pair recs = (if pairs = [] then [(0, 0)] else pairs)
     \<and> (\<forall>r \<in> set recs. device_fields r = device_fields cur)
     \<and> outcomes a' = [] \<and> next_addr a \<le> next_addr a'
     \<and> distinct (concat (map string_addrs recs))
     \<and> set (concat (map string_addrs recs)) \<subseteq> {n0 ..< next_addr a'}"
proof (cases "get_hid_report_descriptor_from_sysfs raw_dev")
  case None
  have 1: "usage_records raw_dev vid pid cur a = Some ([cur], a)"
    by (simp add: usage_records_def None)
  have 2: "node_usage_pairs raw_dev = Some []" by (simp add: node_usage_pairs_def None)
  show ?thesis
    by (rule exI [of _ "[cur]"], rule exI [of _ a], rule exI [of _ "[]"])
       (simp add: 1 2 assms)
next
  case (Some d)
  then obtain rpt sz where d: "get_hid_report_descriptor_from_sysfs raw_dev = Some (rpt, sz)"
    by (cases d) auto
  note bound = descriptor_size_bound [OF d]
  from get_next_hid_usage_returns [OF bound, of rpt 0 0 0]
  obtain ret pos page us where
    g: "get_next_hid_usage rpt sz 0 0 0 = Some (ret, pos, page, us)"
    and ret: "ret = 0 \<or> ret = 1" and fin: "ret = 1 \<longrightarrow> sz \<le> pos"
    by blast
  define cur' where
    "cur' = (if ret = 0 then cur\<lparr>usage_page := page, usage := us\<rparr> else cur)"
  have same_addrs: "string_addrs cur' = string_addrs cur"
    by (simp add: cur'_def string_addrs_def)
  have same_fields: "device_fields cur' = device_fields cur"
    by (simp add: cur'_def device_fields_def)
  have ids: "ptr_value (path cur') = devnode raw_dev" "vendor_id cur' = vid"
    "product_id cur' = pid"
    using assms(2,3,4) by (simp_all add: cur'_def)
  from additional_usage_records_ok [OF bound assms(1) ids, of rpt pos page us]
  obtain rest a' pairs where
    r: "additional_usage_records rpt sz (devnode raw_dev) vid pid pos page us cur' a
          = Some (rest, a')"
    and p: "hid_usage_pairs rpt sz pos page us = Some pairs"
    and mp: "map usage_pair rest = pairs"
    and fl: "\<forall>r \<in> set rest. device_fields r = device_fields cur'"
    and o: "outcomes a' = []" and le: "next_addr a \<le> next_addr a'"
    and dd: "distinct (concat (map string_addrs rest))"
    and ss: "set (concat (map string_addrs rest)) \<subseteq> {next_addr a ..< next_addr a'}"
    by blast
  have res: "usage_records raw_dev vid pid cur a = Some (cur' # rest, a')"
    by (simp add: usage_records_def d g cur'_def [symmetric] r Let_def)
  have blocks: "distinct (string_addrs cur' @ concat (map string_addrs rest))
      \<and> set (string_addrs cur' @ concat (map string_addrs rest)) \<subseteq> {n0 ..< next_addr a'}"
    unfolding same_addrs using assms(6,7,8) dd ss le by (intro two_blocks) blast+
  have dist: "distinct (concat (map string_addrs (cur' # rest)))" using blocks by simp
  have sub: "set (concat (map string_addrs (cur' # rest))) \<subseteq> {n0 ..< next_addr a'}"
    using blocks by simp
  have all: "\<forall>r \<in> set (cur' # rest). device_fields r = device_fields cur"
    using fl same_fields by simp
  show ?thesis
  proof (cases "ret = 0")
    case True
    have np: "node_usage_pairs raw_dev = Some ((page, us) # pairs)"
      unfolding node_usage_pairs_def d
      by (simp, subst hid_usage_pairs.simps) (simp add: g True p)
    have up: "map usage_pair (cur' # rest)
        = (if (page, us) # pairs = [] then [(0, 0)] else (page, us) # pairs)"
      using mp True by (simp add: cur'_def usage_pair_def)
    show ?thesis
      by (rule exI [of _ "cur' # rest"], rule exI [of _ a'],
          rule exI [of _ "(page, us) # pairs"])
         (intro conjI res np up all o le dist sub)
  next
    case False
    with ret fin have at_end: "sz \<le> pos" by blast
    from p have "pairs = []" by (simp add: hid_usage_pairs_at_end [OF at_end])
    with mp have rest: "rest = []" by simp
    have np: "node_usage_pairs raw_dev = Some []"
      unfolding node_usage_pairs_def d
      by (simp, subst hid_usage_pairs.simps) (simp add: g False)
    have up: "map usage_pair (cur' # rest) = (if ([]::(u16 \<times> u16) list) = [] then [(0, 0)] else [])"
      using False assms(5) by (simp add: rest cur'_def)
    show ?thesis
      by (rule exI [of _ "cur' # rest"], rule exI [of _ a'], rule exI [of _ "[]"])
         (intro conjI res np up all o le dist sub)
  qed
qed

lemma utf8_to_wchar_t_ok:
  "outcomes a = [] \<Longrightarrow>
     utf8_to_wchar_t mb utf8 a =
       (case decoded mb utf8 of
          None \<Rightarrow> (None, a)
        | Some w \<Rightarrow> (Some (next_addr a, w), \<lparr>next_addr = Suc (next_addr a), outcomes = []\<rparr>))"
  by (auto simp: utf8_to_wchar_t_def decoded_def wcsdup_ok malloc_ok split: option.splits)

lemma fill_bus_fields_content:
  assumes "outcomes a = []"
    and "fill_bus_fields mb raw_dev bus pn cur a = (cur', a')"
    and "bus = BUS_BLUETOOTH \<or> bus = BUS_I2C \<or> bus = BUS_USB \<or> bus = BUS_SPI"
    and "release_number cur = 0" and "interface_number cur = - 1"
    and "bus_type cur = HID_API_BUS_UNKNOWN"
  shows "(release_number cur', ptr_value (manufacturer_string cur'),
          ptr_value (product_string cur'), interface_number cur', bus_type cur')
         = bus_fields_content mb raw_dev bus pn"
proof (cases "bus = BUS_USB")
  case True
  show ?thesis
  proof (cases "usb_device_parent raw_dev")
    case None
    obtain m a1 where 1: "wcsdup [] a = (m, a1)" by (cases "wcsdup [] a") auto
    obtain p a2 where 2: "utf8_to_wchar_t mb pn a1 = (p, a2)"
      by (cases "utf8_to_wchar_t mb pn a1") auto
    from wcsdup_allocated [OF assms(1) 1]
    have m: "ptr_value m = Some []" and "outcomes a1 = []" by (simp_all add: allocated_def)
    from utf8_to_wchar_t_allocated [OF this(2) 2]
    have p: "ptr_value p = decoded mb pn" by (simp add: allocated_def)
    from assms(2)
    have c: "cur' = cur\<lparr>manufacturer_string := m, product_string := p\<rparr>"
      by (simp add: fill_bus_fields_def True None 1 2)
    show ?thesis
      unfolding c bus_fields_content_def
      by (simp add: True None m p assms(4,5,6))
  next
    case (Some usb_dev)
    have o1: "outcomes (snd (utf8_to_wchar_t mb (manufacturer usb_dev) a)) = []"
      using assms(1) by (simp add: utf8_to_wchar_t_ok split: option.splits)
    obtain m a1 where 1: "utf8_to_wchar_t mb (manufacturer usb_dev) a = (m, a1)"
      by (cases "utf8_to_wchar_t mb (manufacturer usb_dev) a") auto
    obtain p a2 where 2: "utf8_to_wchar_t mb (product usb_dev) a1 = (p, a2)"
      by (cases "utf8_to_wchar_t mb (product usb_dev) a1") auto
    from utf8_to_wchar_t_allocated [OF assms(1) 1]
    have m: "ptr_value m = decoded mb (manufacturer usb_dev)" and "outcomes a1 = []"
      by (simp_all add: allocated_def)
    from utf8_to_wchar_t_allocated [OF this(2) 2]
    have p: "ptr_value p = decoded mb (product usb_dev)" by (simp add: allocated_def)
    define rel where "rel = (case bcdDevice usb_dev of None \<Rightarrow> 0
        | Some str \<Rightarrow> long_to_ushort (strtol_16 str))"
    define ifn where "ifn = (case usb_interface_parent raw_dev of
          None \<Rightarrow> interface_number cur
        | Some None \<Rightarrow> - 1
        | Some (Some str) \<Rightarrow> long_to_int (strtol_16 str))"
    from assms(2) have c: "cur' = cur\<lparr>manufacturer_string := m, product_string := p,
        bus_type := HID_API_BUS_USB, release_number := rel, interface_number := ifn\<rparr>"
      by (simp add: fill_bus_fields_def True Some 1 2 rel_def ifn_def)
    have ifn': "ifn = (case usb_interface_parent raw_dev of
          None \<Rightarrow> - 1
        | Some None \<Rightarrow> - 1
        | Some (Some str) \<Rightarrow> long_to_int (strtol_16 str))"
      unfolding ifn_def assms(5) by (rule refl)
    show ?thesis
      unfolding c bus_fields_content_def
      by (simp add: True Some m p rel_def ifn')
  qed
next
  case False
  obtain m a1 where 1: "wcsdup [] a = (m, a1)" by (cases "wcsdup [] a") auto
  obtain p a2 where 2: "utf8_to_wchar_t mb pn a1 = (p, a2)"
    by (cases "utf8_to_wchar_t mb pn a1") auto
  from wcsdup_allocated [OF assms(1) 1]
  have m: "ptr_value m = Some []" and "outcomes a1 = []" by (simp_all add: allocated_def)
  from utf8_to_wchar_t_allocated [OF this(2) 2]
  have p: "ptr_value p = decoded mb pn" by (simp add: allocated_def)
  from assms(3) False have other: "bus = BUS_BLUETOOTH \<or> bus = BUS_I2C \<or> bus = BUS_SPI"
    by blast
  define bt where "bt = (if bus = BUS_BLUETOOTH then HID_API_BUS_BLUETOOTH
      else if bus = BUS_I2C then HID_API_BUS_I2C else HID_API_BUS_SPI)"
  from assms(2) False other
  have c: "cur' = cur\<lparr>manufacturer_string := m, product_string := p, bus_type := bt\<rparr>"
    by (simp add: fill_bus_fields_def 1 2 bt_def)
  show ?thesis
    unfolding c bus_fields_content_def
    by (simp add: False m p bt_def assms(4,5))
qed

lemma create_device_info_for_device_ok:
  assumes "node_accepted raw_dev" and "outcomes a = []"
  shows "\<exists>recs a' pairs.
     create_device_info_for_device mb raw_dev a = Some (recs, a')
     \<and> node_usage_pairs raw_dev = Some pairs
     \<and> map usage_pair recs = (if pairs = [] then [(0, 0)] else pairs)
     \<and> (\<forall>r \<in> set recs. device_fields r = node_fields mb raw_dev)
     \<and> outcomes a' = [] \<and> next_addr a \<le> next_addr a'
     \<and> distinct (concat (map string_addrs recs))
     \<and> set (concat (map string_addrs recs)) \<subseteq> {next_addr a ..< next_addr a'}"
proof -
  from assms(1) obtain uevent where u: "hid_parent_uevent raw_dev = Some uevent"
    by (auto simp: node_accepted_def split: option.splits)
  obtain result vars where pu: "parse_uevent_info uevent = (result, vars)"
    by (cases "parse_uevent_info uevent") auto
  define bus where "bus = the (ue_bus_type vars)"
  define vid where "vid = the (ue_vendor_id vars)"
  define pid where "pid = the (ue_product_id vars)"
  from assms(1) have res: "result \<noteq> 0"
    and handled: "bus = BUS_BLUETOOTH \<or> bus = BUS_I2C \<or> bus = BUS_USB \<or> bus = BUS_SPI"
    by (simp_all add: node_accepted_def u pu bus_def)
  define a1 where "a1 = \<lparr>next_addr = Suc (next_addr a), outcomes = []\<rparr>"
  have m: "malloc a = (Some (next_addr a), a1)"
    unfolding a1_def using assms(2) by (rule malloc_ok)
  have o1: "outcomes a1 = []" and n01: "next_addr a \<le> next_addr a1" by (simp_all add: a1_def)
  obtain p1 a2 where 1:
    "(case devnode raw_dev of None \<Rightarrow> (None, a1) | Some p \<Rightarrow> strdup p a1) = (p1, a2)"
    by (cases "(case devnode raw_dev of None \<Rightarrow> (None, a1) | Some p \<Rightarrow> strdup p a1)") auto
  have al1: "allocated p1 (devnode raw_dev) a1 a2" using strdup_opt_allocated [OF o1 1] .
  then have o2: "outcomes a2 = []" by (simp add: allocated_def)
  obtain p2 a3 where 2: "utf8_to_wchar_t mb (serial_number_utf8 vars) a2 = (p2, a3)"
    by (cases "utf8_to_wchar_t mb (serial_number_utf8 vars) a2") auto
  have al2: "allocated p2 (decoded mb (serial_number_utf8 vars)) a2 a3"
    using utf8_to_wchar_t_allocated [OF o2 2] .
  then have o3: "outcomes a3 = []" by (simp add: allocated_def)
  define seed where "seed = \<lparr>path = p1, vendor_id = vid, product_id = pid,
      serial_number = p2, release_number = 0, manufacturer_string = None,
      product_string = None, usage_page = 0, usage = 0, interface_number = - 1,
      bus_type = HID_API_BUS_UNKNOWN\<rparr>"
  obtain cur a4 where 3:
    "fill_bus_fields mb raw_dev bus (product_name_utf8 vars) seed a3 = (cur, a4)"
    by (cases "fill_bus_fields mb raw_dev bus (product_name_utf8 vars) seed a3") auto
  note fb = fill_bus_fields_ok [OF o3 3 handled]
  have fc: "(release_number cur, ptr_value (manufacturer_string cur),
          ptr_value (product_string cur), interface_number cur, bus_type cur)
         = bus_fields_content mb raw_dev bus (product_name_utf8 vars)"
    by (rule fill_bus_fields_content [OF o3 3 handled]) (simp_all add: seed_def)
  have o4: "outcomes a4 = []" using fb by simp
  have cur_path: "path cur = p1" and cur_serial: "serial_number cur = p2"
    and cur_vid: "vendor_id cur = vid" and cur_pid: "product_id cur = pid"
    and cur_usage: "usage_pair cur = (0, 0)"
    using fb by (simp_all add: seed_def usage_pair_def)
  have pv: "ptr_value (path cur) = devnode raw_dev"
    using al1 by (simp add: cur_path allocated_def)
  note f1 = allocated_addr_list [OF al1]
  note f2 = allocated_addr_list [OF al2]
  have b12: "distinct (addr_list p1 @ addr_list p2)
      \<and> set (addr_list p1 @ addr_list p2) \<subseteq> {next_addr a1 ..< next_addr a3}"
    using f1 f2 by (intro two_blocks) blast+
  have le13: "next_addr a1 \<le> next_addr a3" using f1 f2 by linarith
  have le34: "next_addr a3 \<le> next_addr a4" using fb by simp
  have b1234: "distinct ((addr_list p1 @ addr_list p2)
        @ (addr_list (manufacturer_string cur) @ addr_list (product_string cur)))
      \<and> set ((addr_list p1 @ addr_list p2)
        @ (addr_list (manufacturer_string cur) @ addr_list (product_string cur)))
          \<subseteq> {next_addr a1 ..< next_addr a4}"
    using b12 fb le13 le34 by (intro two_blocks) blast+
  have sa: "string_addrs cur = (addr_list p1 @ addr_list p2)
        @ (addr_list (manufacturer_string cur) @ addr_list (product_string cur))"
    by (simp add: string_addrs_def cur_path cur_serial)
  have dist: "distinct (string_addrs cur)" unfolding sa using b1234 by blast
  have sub: "set (string_addrs cur) \<subseteq> {next_addr a ..< next_addr a4}"
  proof -
    have "set (string_addrs cur) \<subseteq> {next_addr a1 ..< next_addr a4}"
      unfolding sa using b1234 by blast
    with n01 show ?thesis by fastforce
  qed
  have le04: "next_addr a \<le> next_addr a4" using n01 le13 le34 by linarith
  from usage_records_ok [OF o4 pv cur_vid cur_pid cur_usage dist sub le04]
  obtain recs a' pairs where
    ur: "usage_records raw_dev vid pid cur a4 = Some (recs, a')"
    and np: "node_usage_pairs raw_dev = Some pairs"
    and up: "map usage_pair recs = (if pairs = [] then [(0, 0)] else pairs)"
    and fl: "\<forall>r \<in> set recs. device_fields r = device_fields cur"
    and o': "outcomes a' = []" and le': "next_addr a4 \<le> next_addr a'"
    and dd: "distinct (concat (map string_addrs recs))"
    and ss: "set (concat (map string_addrs recs)) \<subseteq> {next_addr a ..< next_addr a'}"
    by blast
  have cr: "create_device_info_for_device mb raw_dev a = Some (recs, a')"
  proof -
    have h: "\<not> \<not> (bus = BUS_BLUETOOTH \<or> bus = BUS_I2C \<or> bus = BUS_USB \<or> bus = BUS_SPI)"
      using handled by blast
    show ?thesis
      using res
      by (simp only: create_device_info_for_device_def u pu Let_def bus_def [symmetric]
            vid_def [symmetric] pid_def [symmetric] m 1 2 seed_def [symmetric] 3 ur
            option.case prod.case if_False h)
  qed
  have nf: "device_fields cur = node_fields mb raw_dev"
    using fc al2
    by (simp add: device_fields_def node_fields_def u pu bus_def [symmetric] pv cur_vid
          cur_pid cur_serial vid_def pid_def allocated_def split: prod.splits)
  have all: "\<forall>r \<in> set recs. device_fields r = node_fields mb raw_dev"
    using fl nf by simp
  have le: "next_addr a \<le> next_addr a'" using le04 le' by linarith
  show ?thesis
    by (rule exI [of _ recs], rule exI [of _ a'], rule exI [of _ pairs])
       (intro conjI cr np up all o' le dd ss)
qed

lemma sample_parse:
  "parse_uevent_info (sample_uevent ''0003:000005AC:00008242'')
     = (1, \<lparr>ue_bus_type = Some 3, ue_vendor_id = Some 0x05AC, ue_product_id = Some 0x8242,
            serial_number_utf8 = Some ''abc'', product_name_utf8 = Some ''Keyboard'',
            found_id = True, found_serial = True, found_name = True\<rparr>)"
  by (simp add: sample_uevent_def uevent_eval)

lemma sample_parse_virtual:
  "parse_uevent_info (sample_uevent ''0006:000005AC:00008242'')
     = (1, \<lparr>ue_bus_type = Some 6, ue_vendor_id = Some 0x05AC, ue_product_id = Some 0x8242,
            serial_number_utf8 = Some ''abc'', product_name_utf8 = Some ''Keyboard'',
            found_id = True, found_serial = True, found_name = True\<rparr>)"
  by (simp add: sample_uevent_def uevent_eval)

lemma sample_accepted: "node_accepted (sample_device ''0003:000005AC:00008242'')"
  by (simp add: node_accepted_def sample_device_def sample_parse BUS_USB_def)

lemma sample_pairs:
  "node_usage_pairs (sample_device hid_id) = Some [(0x0001, 0x0006), (0x000C, 0x0001)]"
  by (simp add: node_usage_pairs_def sample_device_def
        get_hid_report_descriptor_from_sysfs_def HID_MAX_DESCRIPTOR_SIZE_def
        hid_usage_pairs.simps parser_eval nth_append)

lemma sample_create:
  "create_device_info_for_device ascii_mbstowcs (sample_device ''0003:000005AC:00008242'')
     fresh_allocator
   = Some ([\<lparr>path = Some (1, ''/dev/hidraw0''), vendor_id = 0x05AC, product_id = 0x8242,
             serial_number = Some (2, [0x61, 0x62, 0x63]), release_number = 0,
             manufacturer_string = Some (3, []),
             product_string = Some (4, [0x4B, 0x65, 0x79, 0x62, 0x6F, 0x61, 0x72, 0x64]),
             usage_page = 0x0001, usage = 0x0006, interface_number = - 1,
             bus_type = HID_API_BUS_UNKNOWN\<rparr>,
            \<lparr>path = Some (6, ''/dev/hidraw0''), vendor_id = 0x05AC, product_id = 0x8242,
             serial_number = Some (7, [0x61, 0x62, 0x63]), release_number = 0,
             manufacturer_string = Some (8, []),
             product_string = Some (9, [0x4B, 0x65, 0x79, 0x62, 0x6F, 0x61, 0x72, 0x64]),
             usage_page = 0x000C, usage = 0x0001, interface_number = - 1,
             bus_type = HID_API_BUS_UNKNOWN\<rparr>],
           \<lparr>next_addr = 10, outcomes = []\<rparr>)"
  unfolding create_device_info_for_device_def
  by (simp add: sample_parse sample_device_def [of "''0003:000005AC:00008242''"]
        usage_records_def additional_usage_records.simps
        new_usage_record_def copy_wstring_def fill_bus_fields_def strdup_def wcsdup_def
        malloc_def utf8_to_wchar_t_def get_hid_report_descriptor_from_sysfs_def
        BUS_USB_def BUS_BLUETOOTH_def BUS_I2C_def BUS_SPI_def HID_MAX_DESCRIPTOR_SIZE_def
        ascii_mbstowcs_def fresh_allocator_def parser_eval nth_append)

lemma sample_create_virtual:
  "create_device_info_for_device ascii_mbstowcs (sample_device ''0006:000005AC:00008242'')
     fresh_allocator
   = Some ([], fresh_allocator)"
  unfolding create_device_info_for_device_def
  by (simp add: sample_parse_virtual sample_device_def [of "''0006:000005AC:00008242''"]
        BUS_USB_def BUS_BLUETOOTH_def BUS_I2C_def BUS_SPI_def)

subsection \<open>One record per usage pair\<close>

text \<open>C2, as the code has it.  Take a node the function does not drop (it has a parent in
  the subsystem "hid", the parent's uevent text parses and the bus type is USB,
  Bluetooth, I2C or SPI) and an allocator in which no request fails.  If the descriptor
  yields the pairs \<open>pairs\<close>, then \<^verbatim>\<open>create_device_info_for_device\<close> returns one record per
  pair, carrying the pairs in order; if it yields no pair, or cannot be read, it returns
  exactly one record with \<^verbatim>\<open>usage_page = usage = 0\<close>.  All records agree on every other
  field (strings compared by content), and the addresses of their non-null strings are
  pairwise distinct and fresh, so every record owns its own copies.\<close>

theorem create_device_info_fan_out:
  assumes "node_accepted raw_dev" and "outcomes a = []"
  shows "\<exists>recs a' pairs.
     create_device_info_for_device mb raw_dev a = Some (recs, a')
     \<and> node_usage_pairs raw_dev = Some pairs
     \<and> length recs = (if pairs = [] then 1 else length pairs)
     \<and> map usage_pair recs = (if pairs = [] then [(0, 0)] else pairs)
     \<and> (\<forall>r \<in> set recs. device_fields r = node_fields mb raw_dev)
     \<and> distinct (concat (map string_addrs recs))
     \<and> (\<forall>x \<in> set (concat (map string_addrs recs)). next_addr a \<le> x)"
proof -
  from create_device_info_for_device_ok [OF assms, of mb]
  obtain recs a' pairs where
    cr: "create_device_info_for_device mb raw_dev a = Some (recs, a')"
    and np: "node_usage_pairs raw_dev = Some pairs"
    and up: "map usage_pair recs = (if pairs = [] then [(0, 0)] else pairs)"
    and all: "\<forall>r \<in> set recs. device_fields r = node_fields mb raw_dev"
    and dd: "distinct (concat (map string_addrs recs))"
    and ss: "set (concat (map string_addrs recs)) \<subseteq> {next_addr a ..< next_addr a'}"
    by blast
  have "length (map usage_pair recs) = length (if pairs = [] then [(0, 0)] else pairs)"
    by (simp only: up)
  then have len: "length recs = (if pairs = [] then 1 else length pairs)"
    by (simp split: if_splits)
  have fresh: "\<forall>x \<in> set (concat (map string_addrs recs)). next_addr a \<le> x"
    using ss by fastforce
  show ?thesis
    by (rule exI [of _ recs], rule exI [of _ a'], rule exI [of _ pairs])
       (intro conjI cr np len up all dd fresh)
qed

theorem create_device_info_fan_out_witness:
  "node_accepted (sample_device ''0003:000005AC:00008242'')
   \<and> outcomes fresh_allocator = []
   \<and> node_usage_pairs (sample_device ''0003:000005AC:00008242'')
        = Some [(0x0001, 0x0006), (0x000C, 0x0001)]
   \<and> map usage_pair (fst (the (create_device_info_for_device ascii_mbstowcs
          (sample_device ''0003:000005AC:00008242'') fresh_allocator)))
        = [(0x0001, 0x0006), (0x000C, 0x0001)]
   \<and> map string_addrs (fst (the (create_device_info_for_device ascii_mbstowcs
          (sample_device ''0003:000005AC:00008242'') fresh_allocator)))
        = [[1, 2, 3, 4], [6, 7, 8, 9]]"
proof -
  have o: "outcomes fresh_allocator = []" by (simp add: fresh_allocator_def)
  show ?thesis
    using create_device_info_fan_out [OF sample_accepted o, of ascii_mbstowcs]
    by (simp add: sample_accepted o sample_pairs sample_create usage_pair_def
          string_addrs_def addr_list_def)
qed

text \<open>C2 for every node fails: the sample keyboard on the bus type 0x06 has a descriptor
  that yields two pairs, and the function returns no record for it.\<close>

theorem create_device_info_dropped_node_counterexample:
  "node_usage_pairs (sample_device ''0006:000005AC:00008242'')
     = Some [(0x0001, 0x0006), (0x000C, 0x0001)]
   \<and> create_device_info_for_device ascii_mbstowcs
        (sample_device ''0006:000005AC:00008242'') fresh_allocator
     = Some ([], fresh_allocator)"
  by (simp add: sample_pairs sample_create_virtual)


section \<open>Properties of the enumeration\<close>

lemma create_dropped:
  "\<not> node_accepted raw_dev \<Longrightarrow> create_device_info_for_device mb raw_dev a = Some ([], a)"
  by (auto simp: node_accepted_def create_device_info_for_device_def Let_def
        split: option.splits prod.splits)

lemma create_views:
  assumes "outcomes a = []"
  shows "\<exists>recs a'. create_device_info_for_device mb raw_dev a = Some (recs, a')
     \<and> outcomes a' = [] \<and> map device_view recs = node_views mb raw_dev"
proof (cases "node_accepted raw_dev")
  case False
  then show ?thesis using assms by (simp add: create_dropped node_views_def)
next
  case True
  from create_device_info_for_device_ok [OF True assms, of mb]
  obtain recs a' pairs where
    cr: "create_device_info_for_device mb raw_dev a = Some (recs, a')"
    and np: "node_usage_pairs raw_dev = Some pairs"
    and up: "map usage_pair recs = (if pairs = [] then [(0, 0)] else pairs)"
    and all: "\<forall>r \<in> set recs. device_fields r = node_fields mb raw_dev"
    and o: "outcomes a' = []"
    by blast
  have "map device_view recs = map (\<lambda>r. (node_fields mb raw_dev, usage_pair r)) recs"
    using all by (simp add: device_view_def)
  also have "\<dots> = map (\<lambda>pair. (node_fields mb raw_dev, pair)) (map usage_pair recs)"
    by simp
  also have "\<dots> = node_views mb raw_dev"
    unfolding up by (simp add: node_views_def True np)
  finally show ?thesis using cr o by blast
qed

lemma filtered_out_unfiltered: "filtered_out 0 0 e = Some False"
  by (simp add: filtered_out_def)


lemma enumerate_entries_views:
  assumes "outcomes a = []"
    and "\<forall>e \<in> set es. \<exists>skip. filtered_out v p e = Some skip"
  shows "\<exists>recs a'. enumerate_entries mb v p es a = Some (recs, a')
     \<and> outcomes a' = [] \<and> map device_view recs = concat (map (entry_views mb v p) es)"
  using assms
proof (induction es arbitrary: a)
  case Nil
  then show ?case by simp
next
  case (Cons e es)
  from Cons.prems(2) obtain skip where fo: "filtered_out v p e = Some skip" by auto
  from Cons.prems(2) have rest: "\<forall>e \<in> set es. \<exists>skip. filtered_out v p e = Some skip"
    by simp
  from Cons.IH [OF Cons.prems(1) rest]
  obtain recs a' where skipped: "enumerate_entries mb v p es a = Some (recs, a')"
    "outcomes a' = []" "map device_view recs = concat (map (entry_views mb v p) es)"
    by blast
  show ?case
  proof (cases "entry_name e = None \<or> skip \<or> device_from_syspath e = None")
    case True
    then have "enumerate_entries mb v p (e # es) a = enumerate_entries mb v p es a"
      and "entry_views mb v p e = []"
      by (auto simp: entry_views_def fo split: option.splits)
    with skipped show ?thesis by simp
  next
    case False
    then obtain n d where e: "entry_name e = Some n" "\<not> skip"
      "device_from_syspath e = Some d"
      by auto
    from create_views [OF Cons.prems(1), of mb d]
    obtain tmp a1 where c: "create_device_info_for_device mb d a = Some (tmp, a1)"
      "outcomes a1 = []" "map device_view tmp = node_views mb d"
      by blast
    from Cons.IH [OF c(2) rest]
    obtain rest' a2 where r: "enumerate_entries mb v p es a1 = Some (rest', a2)"
      "outcomes a2 = []" "map device_view rest' = concat (map (entry_views mb v p) es)"
      by blast
    have "enumerate_entries mb v p (e # es) a = Some (tmp @ rest', a2)"
      by (simp add: e fo c r)
    moreover have "map device_view (tmp @ rest') = concat (map (entry_views mb v p) (e # es))"
      by (simp add: c r entry_views_def e fo)
    ultimately show ?thesis using r(2) by blast
  qed
qed

text \<open>The unfiltered enumeration reads no uevent file and returns when no allocation
  fails.\<close>

lemma hid_enumerate_unfiltered:
  assumes "outcomes a = []"
  shows "\<exists>found a'. hid_enumerate mb sys 0 0 a = Some (found, a')"
proof (cases "udev_new_ok sys")
  case False
  then show ?thesis by (simp add: hid_enumerate_def)
next
  case True
  have "\<forall>e \<in> set (hidraw_entries sys). \<exists>skip. filtered_out 0 0 e = Some skip"
    using filtered_out_unfiltered by blast
  from enumerate_entries_views [OF assms this, of mb]
  show ?thesis using True by (auto simp: hid_enumerate_def)
qed


lemma sscanf_three:
  assumes "sscanf_x_hx_hx val = (3, scanned)"
  shows "\<exists>b v p. scanned = (Some b, Some v, Some p)"
  using assms
  by (auto simp: sscanf_x_hx_hx_def split: scan_result.splits if_splits)

lemma store_ids_full: "store_ids ids (Some b, Some v, Some p) = (Some b, Some v, Some p)"
  by (cases ids) (simp add: store_ids_def)

lemma not_id_line_one:
  assumes "\<not> is_key_line ''HID_ID'' l"
  shows "scan_lines ids (l # rest) = scan_lines ids rest"
    and "ids_of (parse_uevent_line st l) = ids_of st"
proof -
  have k: "split_key_value l = Some (key, val) \<Longrightarrow> key \<noteq> ''HID_ID''" for key val
    using assms split_key_value_key [of "''HID_ID''" l] by auto
  show "scan_lines ids (l # rest) = scan_lines ids rest"
    using k by (cases "split_key_value l") (auto simp: scan_lines.simps)
  show "ids_of (parse_uevent_line st l) = ids_of st"
    using k by (cases "split_key_value l") (auto simp: parse_uevent_line_def ids_of_def)
qed


lemma id_line_one:
  assumes "is_hid_id_line l"
  shows "\<exists>b v p. scan_lines ids (l # rest) = (1, Some b, Some v, Some p)
     \<and> ids_of (parse_uevent_line st l) = (Some b, Some v, Some p)"
proof -
  from assms have key: "is_key_line ''HID_ID'' l"
    and three: "fst (sscanf_x_hx_hx (drop 7 l)) = 3"
    by (simp_all add: is_hid_id_line_def)
  have seven: "length ''HID_ID'' + 1 = 7" by simp
  from key have kv: "split_key_value l = Some (''HID_ID'', drop 7 l)"
    using is_key_line_iff [of "''HID_ID''" l] unfolding seven by simp
  obtain scanned where sc: "sscanf_x_hx_hx (drop 7 l) = (3, scanned)"
    using three by (cases "sscanf_x_hx_hx (drop 7 l)") auto
  from sscanf_three [OF sc] obtain b v p where s: "scanned = (Some b, Some v, Some p)"
    by blast
  have 1: "scan_lines ids (l # rest) = (1, Some b, Some v, Some p)"
    by (simp add: kv sc s store_ids_full scan_lines.simps)
  have 2: "ids_of (parse_uevent_line st l) = (Some b, Some v, Some p)"
    by (simp add: parse_uevent_line_def kv sc s store_ids_full ids_of_def)
  from 1 2 show ?thesis by blast
qed


lemma scan_lines_fails:
  "fst (scan_lines ids ls) = 0 \<Longrightarrow> \<not> list_ex is_hid_id_line ls"
proof (induction ls arbitrary: ids)
  case Nil
  then show ?case by simp
next
  case (Cons l ls)
  show ?case
  proof (cases "is_hid_id_line l")
    case True
    from id_line_one [OF True, of ids ls uevent_vars_init] Cons.prems show ?thesis by auto
  next
    case False
    show ?thesis
    proof (cases "is_key_line ''HID_ID'' l")
      case k: False
      with Cons show ?thesis by (simp add: not_id_line_one(1) False)
    next
      case k: True
      have seven: "length ''HID_ID'' + 1 = 7" by simp
      from k have kv: "split_key_value l = Some (''HID_ID'', drop 7 l)"
        using is_key_line_iff [of "''HID_ID''" l] unfolding seven by simp
      obtain ret scanned where sc: "sscanf_x_hx_hx (drop 7 l) = (ret, scanned)"
        by (cases "sscanf_x_hx_hx (drop 7 l)") auto
      from False k sc have "ret \<noteq> 3" by (simp add: is_hid_id_line_def)
      with Cons.prems have "fst (scan_lines (store_ids ids scanned) ls) = 0"
        by (simp add: kv sc scan_lines.simps)
      from Cons.IH [OF this] False show ?thesis by simp
    qed
  qed
qed
















subsection \<open>The vendor/product filter\<close>




section \<open>Properties of the hotplug engine\<close>

subsection \<open>Registration\<close>

text \<open>C7. \<^verbatim>\<open>hid_hotplug_register_callback\<close> should return 0 on a successful registration.
  Every return statement of the function returns \<open>-1\<close>, the one behind the installation of
  the callback included.\<close>

theorem register_callback_always_returns_minus_one:
  "hid_hotplug_register_callback mb sys vid pid events flags callback user_data handle_out ctx a
     = Some (ret, stored, ctx', a') \<Longrightarrow> ret = - 1"
  by (auto simp: hid_hotplug_register_callback_def Let_def
        split: if_splits prod.splits option.splits)

lemma sample_system_enumerates:
  "outcomes a = [] \<Longrightarrow> \<exists>found a'. hid_enumerate mb sample_system 0 0 a = Some (found, a')"
  by (rule hid_enumerate_unfiltered)

theorem register_callback_always_returns_minus_one_witness:
  "hid_hotplug_register_callback ascii_mbstowcs sample_system 0 0
       HID_API_HOTPLUG_EVENT_DEVICE_ARRIVED 0 (Some sample_callback) 0 True
       (hid_hotplug_context_init :: unit hid_hotplug_context) fresh_allocator \<noteq> None
   \<and> fst (the (hid_hotplug_register_callback ascii_mbstowcs sample_system 0 0
       HID_API_HOTPLUG_EVENT_DEVICE_ARRIVED 0 (Some sample_callback) 0 True
       (hid_hotplug_context_init :: unit hid_hotplug_context) fresh_allocator)) = - 1
   \<and> fst (snd (the (hid_hotplug_register_callback ascii_mbstowcs sample_system 0 0
       HID_API_HOTPLUG_EVENT_DEVICE_ARRIVED 0 (Some sample_callback) 0 True
       (hid_hotplug_context_init :: unit hid_hotplug_context) fresh_allocator))) = Some 1
   \<and> map cb_handle (hotplug_cbs (fst (snd (snd (the (hid_hotplug_register_callback
       ascii_mbstowcs sample_system 0 0
       HID_API_HOTPLUG_EVENT_DEVICE_ARRIVED 0 (Some sample_callback) 0 True
       (hid_hotplug_context_init :: unit hid_hotplug_context) fresh_allocator)))))) = [1]
   \<and> thread_started (fst (snd (snd (the (hid_hotplug_register_callback
       ascii_mbstowcs sample_system 0 0
       HID_API_HOTPLUG_EVENT_DEVICE_ARRIVED 0 (Some sample_callback) 0 True
       (hid_hotplug_context_init :: unit hid_hotplug_context) fresh_allocator)))))"
proof -
  define a1 where "a1 = \<lparr>next_addr = Suc 0, outcomes = []\<rparr>"
  have m: "malloc fresh_allocator = (Some 0, a1)"
    by (simp add: malloc_def fresh_allocator_def a1_def)
  have "outcomes a1 = []" by (simp add: a1_def)
  from sample_system_enumerates [OF this, of ascii_mbstowcs]
  obtain found a2 where e: "hid_enumerate ascii_mbstowcs sample_system 0 0 a1 = Some (found, a2)"
    by blast
  have ok: "udev_new_ok sample_system" by (simp add: sample_system_def)
  define ctx' :: "unit hid_hotplug_context" where
    "ctx' = hid_hotplug_context_init\<lparr>next_handle := 2, udev_ctx := True, udev_ctx_live := True,
        mon_live := True, monitor_fd := monitor_socket_fd sample_system, devs := found,
        hotplug_cbs := [\<lparr>cb_handle = 1, cb_vendor_id = 0, cb_product_id = 0,
           cb_events = HID_API_HOTPLUG_EVENT_DEVICE_ARRIVED, cb_user_data = 0,
           cb_callback = sample_callback\<rparr>],
        thread_started := True\<rparr>"
  have r: "hid_hotplug_register_callback ascii_mbstowcs sample_system 0 0
       HID_API_HOTPLUG_EVENT_DEVICE_ARRIVED 0 (Some sample_callback) 0 True
       (hid_hotplug_context_init :: unit hid_hotplug_context) fresh_allocator
     = Some (- 1, Some 1, ctx', a2)"
    by (simp add: hid_hotplug_register_callback_def m e ok Let_def ctx'_def
          HID_API_HOTPLUG_EVENT_DEVICE_ARRIVED_def HID_API_HOTPLUG_EVENT_DEVICE_LEFT_def
          HID_API_HOTPLUG_ENUMERATE_def hid_hotplug_context_init_def increment_handle_def)
  show ?thesis
    using register_callback_always_returns_minus_one [OF r]
    by (simp add: r ctx'_def)
qed

subsection \<open>Deregistration of the last callback\<close>

text \<open>C8. After the last callback is deregistered the worker should see a negative
  monitor descriptor and return.  \<^verbatim>\<open>hid_hotplug_deregister_callback\<close> and the cleanup never
  assign \<^verbatim>\<open>monitor_fd\<close>: the descriptor, and with it the test of the worker's loop, are
  the same after the call as before.\<close>

theorem deregister_keeps_monitor_fd:
  "monitor_fd (snd (hid_hotplug_deregister_callback h ctx)) = monitor_fd ctx
   \<and> hotplug_thread_continues (snd (hid_hotplug_deregister_callback h ctx))
       = hotplug_thread_continues ctx"
  by (simp add: hid_hotplug_deregister_callback_def hid_internal_hotplug_cleanup_def
        hotplug_thread_continues_def split: prod.splits)

theorem deregister_keeps_monitor_fd_witness:
  "hid_hotplug_deregister_callback 1 sample_armed_context
     = (0, \<lparr>udev_ctx = True, udev_ctx_live = False, mon_live = False, monitor_fd = 7,
            thread_started = True, next_handle = 2, hotplug_cbs = [], devs = []\<rparr>)
   \<and> hotplug_thread_continues (snd (hid_hotplug_deregister_callback 1 sample_armed_context))"
  using deregister_keeps_monitor_fd [of 1 sample_armed_context]
  by (simp add: hid_hotplug_deregister_callback_def hid_internal_hotplug_cleanup_def
        hotplug_thread_continues_def sample_armed_context_def sample_hotplug_callback_def)

subsection \<open>Callbacks that ask to be removed\<close>









end
